theory Spec2Isabelle
  imports Complex_Main "HOL-Library.Numeral_Type"
begin

section \<open>Neural-network DMD (\<open>pykoopman/regression/_nndmd.py\<close>): data model\<close>

text \<open>
  Tensors and arrays hold real numbers: the development idealises float32/float64
  arithmetic to exact arithmetic over \<open>real\<close>. A state is a row of features, a
  trajectory is a 2-D array, that is a list of states.
\<close>

type_synonym state = "real list"
type_synonym trajectory = "state list"

text \<open>The Python exceptions the modelled code paths can raise.\<close>

datatype error =
    ValueError
  | TypeError
  | IndexError
  | KeyError
  | AttributeError
  | NotFittedError
  | RuntimeError

text \<open>
  A list comprehension or loop over fallible steps stops at the first exception.
\<close>

fun collect :: "(error + 'a) list \<Rightarrow> error + 'a list" where
  "collect [] = Inr []"
| "collect (r # rs) =
     (case r of
        Inl e \<Rightarrow> Inl e
      | Inr v \<Rightarrow> (case collect rs of Inl e \<Rightarrow> Inl e | Inr vs \<Rightarrow> Inr (v # vs)))"

section \<open>\<open>NNDMD.fit\<close>: dispatch of the input shapes into a trajectory list\<close>

text \<open>
  The arguments \<open>x\<close> and \<open>y\<close> of \<open>fit\<close>: \<open>None\<close>, a 2-D \<open>np.ndarray\<close> (its rows), an
  \<open>np.ndarray\<close> of another dimensionality, or a Python list of trajectories.
\<close>

datatype fit_arg =
    PyNone
  | Ndarray2 "state list"
  | NdarrayOther nat
  | PyList "trajectory list"

text \<open>\<open>np.stack((a, b), 0)\<close> of two rows: the rows must have the same shape.\<close>

definition np_stack2 :: "state \<Rightarrow> state \<Rightarrow> error + trajectory" where
  "np_stack2 a b = (if length a = length b then Inr [a, b] else Inl ValueError)"

text \<open>\<open>np.stack((t0[i], t1[i]), 0)\<close>: indexing a row out of range raises \<open>IndexError\<close>.\<close>

definition stack_pair :: "state list \<Rightarrow> state list \<Rightarrow> nat \<Rightarrow> error + trajectory" where
  "stack_pair t0 t1 i =
     (if i < length t0 \<and> i < length t1 then np_stack2 (t0 ! i) (t1 ! i)
      else Inl IndexError)"

text \<open>
  \<open>range(len(x) - 1)\<close>: the bound is a Python integer, and a negative bound gives the
  empty range.
\<close>

definition range_len_minus_1 :: "'a list \<Rightarrow> nat list" where
  "range_len_minus_1 x = [0..<nat (int (length x) - 1)]"

text \<open>
  The part of \<open>fit\<close> that builds the data module: the result is the training trajectory
  list, the validation list (\<open>None\<close> when absent) and \<open>n_samples_\<close>.
  \<^item> case (i): \<open>t0, t1 = x[:-1], x[1:]\<close>;
  \<^item> case (ii): \<open>t0, t1 = x, y\<close>; both cases then run
    \<open>[np.stack((t0[i], t1[i]), 0) for i in range(len(x) - 1)]\<close>;
  \<^item> cases (iii) and (iv) pass the lists on;
  \<^item> anything else raises \<open>ValueError\<close>.
\<close>

fun fit_data_module ::
  "fit_arg \<Rightarrow> fit_arg \<Rightarrow> error + (trajectory list \<times> trajectory list option \<times> nat)" where
  "fit_data_module (Ndarray2 x) PyNone =
     (case collect (map (stack_pair (butlast x) (tl x)) (range_len_minus_1 x)) of
        Inl e \<Rightarrow> Inl e
      | Inr list_of_traj \<Rightarrow> Inr (list_of_traj, None, length list_of_traj))"
| "fit_data_module (Ndarray2 x) (Ndarray2 y) =
     (case collect (map (stack_pair x y) (range_len_minus_1 x)) of
        Inl e \<Rightarrow> Inl e
      | Inr list_of_traj \<Rightarrow> Inr (list_of_traj, None, length list_of_traj))"
| "fit_data_module (PyList x) PyNone = Inr (x, None, length x)"
| "fit_data_module (PyList x) (PyList y) = Inr (x, Some y, length x)"
| "fit_data_module _ _ = Inl ValueError"

section \<open>\<open>NNDMD\<close>: fitted attributes and the read-only properties\<close>

text \<open>
  An \<open>NNDMD\<close> object is its attribute dictionary. \<open>__init__\<close> sets the configuration
  attributes and \<open>_regressor\<close>; the attributes \<open>_state_matrix_\<close>, \<open>_eigenvalues_\<close>,
  \<open>_eigenvectors_\<close>, \<open>_coef_\<close>, \<open>_ur\<close> and \<open>_unnormalized_modes\<close> are only assigned at
  the end of \<open>fit\<close>.
\<close>

type_synonym 'v pyobject = "string \<rightharpoonup> 'v"

definition NNDMD_init_attrs :: "string list" where
  "NNDMD_init_attrs =
     [''mode'', ''look_forward'', ''config_encoder'', ''config_decoder'', ''lbfgs'',
      ''normalize'', ''normalize_mode'', ''dt'', ''trainer_kwargs'',
      ''normalize_std_factor'', ''batch_size'', ''_regressor'']"

definition NNDMD_init :: "(string \<Rightarrow> 'v) \<Rightarrow> 'v pyobject" where
  "NNDMD_init args = (\<lambda>name. if name \<in> set NNDMD_init_attrs then Some (args name) else None)"

text \<open>Reading \<open>self.name\<close>: a missing attribute raises \<open>AttributeError\<close>.\<close>

definition getattr :: "'v pyobject \<Rightarrow> string \<Rightarrow> error + 'v" where
  "getattr self name = (case self name of None \<Rightarrow> Inl AttributeError | Some v \<Rightarrow> Inr v)"

text \<open>
  \<open>sklearn.utils.validation.check_is_fitted(self, name)\<close> (a library function): it
  raises \<open>NotFittedError\<close> when the object has no attribute \<open>name\<close>, and returns
  otherwise.
\<close>

definition check_is_fitted :: "'v pyobject \<Rightarrow> string \<Rightarrow> error + unit" where
  "check_is_fitted self name =
     (case self name of None \<Rightarrow> Inl NotFittedError | Some _ \<Rightarrow> Inr ())"

definition checked_attr :: "'v pyobject \<Rightarrow> string \<Rightarrow> error + 'v" where
  "checked_attr self name =
     (case check_is_fitted self name of Inl e \<Rightarrow> Inl e | Inr _ \<Rightarrow> getattr self name)"

definition coef_prop :: "'v pyobject \<Rightarrow> error + 'v" where
  "coef_prop self = checked_attr self ''_coef_''"

text \<open>\<open>state_matrix_\<close> returns \<open>self._state_matrix_\<close> with no \<open>check_is_fitted\<close>.\<close>

definition state_matrix_prop :: "'v pyobject \<Rightarrow> error + 'v" where
  "state_matrix_prop self = getattr self ''_state_matrix_''"

definition eigenvalues_prop :: "'v pyobject \<Rightarrow> error + 'v" where
  "eigenvalues_prop self = checked_attr self ''_eigenvalues_''"

definition eigenvectors_prop :: "'v pyobject \<Rightarrow> error + 'v" where
  "eigenvectors_prop self = checked_attr self ''_eigenvectors_''"

definition unnormalized_modes :: "'v pyobject \<Rightarrow> error + 'v" where
  "unnormalized_modes self = checked_attr self ''_unnormalized_modes''"

definition ur :: "'v pyobject \<Rightarrow> error + 'v" where
  "ur self = checked_attr self ''_ur''"

section \<open>\<open>SeqDataModule.check_list_of_nparray\<close>: dtype validation\<close>

datatype dtype =
    Float16 | Float32 | Float64 | Float128
  | Complex64 | Complex128
  | Int32 | Int64 | Bool

text \<open>\<open>dtype.name\<close>.\<close>

fun dtype_name :: "dtype \<Rightarrow> string" where
  "dtype_name Float16 = ''float16''"
| "dtype_name Float32 = ''float32''"
| "dtype_name Float64 = ''float64''"
| "dtype_name Float128 = ''float128''"
| "dtype_name Complex64 = ''complex64''"
| "dtype_name Complex128 = ''complex128''"
| "dtype_name Int32 = ''int32''"
| "dtype_name Int64 = ''int64''"
| "dtype_name Bool = ''bool''"

text \<open>An array: its dtype and its rows.\<close>

record nparray =
  arr_dtype :: dtype
  arr_rows :: "state list"

text \<open>
  \<open>np.iscomplexobj(x)\<close>: whether the dtype is a complex one.
\<close>

fun iscomplexobj :: "nparray \<Rightarrow> bool" where
  "iscomplexobj a = (arr_dtype a = Complex64 \<or> arr_dtype a = Complex128)"

text \<open>
  The Python objects compared by \<open>x.dtype is np.float64\<close>: the attribute \<open>x.dtype\<close>
  is an instance of \<open>numpy.dtype\<close>, while \<open>np.float64\<close> is the scalar type (a class).
  \<open>is\<close> is object identity.
\<close>

datatype pyref = DtypeInstance dtype | ScalarClass dtype

definition py_is :: "pyref \<Rightarrow> pyref \<Rightarrow> bool" where
  "py_is a b = (a = b)"

text \<open>The substring test \<open>s in t\<close> on strings.\<close>

definition py_in :: "string \<Rightarrow> string \<Rightarrow> bool" where
  "py_in s t = list_ex (\<lambda>i. take (length s) (drop i t) = s) [0..<Suc (length t)]"

text \<open>
  \<open>astype("float32")\<close>: the dtype changes; the entries are rounded to single precision
  by \<open>cast32\<close>, a parameter of the model.
\<close>

definition astype_float32 :: "(real \<Rightarrow> real) \<Rightarrow> nparray \<Rightarrow> nparray" where
  "astype_float32 cast32 a = \<lparr>arr_dtype = Float32, arr_rows = map (map cast32) (arr_rows a)\<rparr>"

text \<open>
  The conversion loop: an array that is not of a float dtype raises \<open>TypeError\<close>; a
  \<open>float64\<close> array is replaced by its \<open>float32\<close> copy.
\<close>

fun convert_loop :: "(real \<Rightarrow> real) \<Rightarrow> nparray list \<Rightarrow> error + nparray list" where
  "convert_loop cast32 [] = Inr []"
| "convert_loop cast32 (a # as) =
     (if \<not> py_in ''float'' (dtype_name (arr_dtype a)) then Inl TypeError
      else (case convert_loop cast32 as of
              Inl e \<Rightarrow> Inl e
            | Inr rest \<Rightarrow>
                Inr ((if dtype_name (arr_dtype a) = ''float64'' then astype_float32 cast32 a
                      else a) # rest)))"

text \<open>
  \<open>check_list_of_nparray\<close>: the result is the list of warnings issued and the converted
  list, or the exception raised.
\<close>

definition check_list_of_nparray ::
  "(real \<Rightarrow> real) \<Rightarrow> nparray list \<Rightarrow> error + (string list \<times> nparray list)" where
  "check_list_of_nparray cast32 data_list =
     (if list_ex iscomplexobj data_list then Inl TypeError
      else
        let warnings =
              (if list_ex (\<lambda>x. py_is (DtypeInstance (arr_dtype x)) (ScalarClass Float64)) data_list
               then [''Found float64 data. Will convert to float32''] else [])
        in (case convert_loop cast32 data_list of
              Inl e \<Rightarrow> Inl e
            | Inr converted \<Rightarrow> Inr (warnings, converted)))"

section \<open>\<open>FFNN.__init__\<close>: the layers of the feed-forward network\<close>

datatype activation = ReLU | Sigmoid | Tanh | SiLU | ELU | Mish | Identity

text \<open>The dictionary \<open>activations_dict\<close>; a key that is missing raises \<open>KeyError\<close>.\<close>

definition activations_dict :: "string \<rightharpoonup> activation" where
  "activations_dict =
     map_of [(''relu'', ReLU), (''sigmoid'', Sigmoid), (''tanh'', Tanh), (''swish'', SiLU),
             (''elu'', ELU), (''mish'', Mish), (''linear'', Identity)]"

text \<open>
  A module of \<open>self.layers\<close>: \<open>nn.Linear(in_features, out_features, bias)\<close> or the
  activation module.
\<close>

datatype layer = Linear nat nat bool | Activation activation

text \<open>What follows a linear layer: \<open>if activations != "linear": self.layers.append(act)\<close>.\<close>

definition act_layers :: "string \<Rightarrow> activation \<Rightarrow> layer list" where
  "act_layers activations act = (if activations \<noteq> ''linear'' then [Activation act] else [])"

text \<open>The loop \<open>for i in range(1, len(hidden_sizes))\<close>.\<close>

definition hidden_layers :: "nat list \<Rightarrow> bool \<Rightarrow> string \<Rightarrow> activation \<Rightarrow> layer list" where
  "hidden_layers hidden_sizes bias activations act =
     concat (map (\<lambda>i. Linear (hidden_sizes ! (i - 1)) (hidden_sizes ! i) bias
                        # act_layers activations act)
                 [1..<length hidden_sizes])"

definition FFNN_init :: "nat \<Rightarrow> nat list \<Rightarrow> nat \<Rightarrow> string \<Rightarrow> error + layer list" where
  "FFNN_init input_size hidden_sizes output_size activations =
     (case activations_dict activations of
        None \<Rightarrow> Inl KeyError
      | Some act \<Rightarrow>
          let bias = (activations \<noteq> ''linear'') in
          if length hidden_sizes = 0 then Inr [Linear input_size output_size bias]
          else
            let bias_last = False in
            Inr (Linear input_size (hidden_sizes ! 0) bias # act_layers activations act
                 @ hidden_layers hidden_sizes bias activations act
                 @ [Linear (last hidden_sizes) output_size bias_last]))"

text \<open>The bias flags of the linear layers of a network, in order.\<close>

fun linear_biases :: "layer list \<Rightarrow> bool list" where
  "linear_biases [] = []"
| "linear_biases (Linear m n b # ls) = b # linear_biases ls"
| "linear_biases (Activation a # ls) = linear_biases ls"

section \<open>\<open>SeqDataModule.convert_seq_list_to_delayed_data\<close>: windowing\<close>

text \<open>A slice \<open>seq[a:b]\<close> with non-negative bounds; the bounds are clamped to the length.\<close>

definition py_slice :: "'a list \<Rightarrow> nat \<Rightarrow> nat \<Rightarrow> 'a list" where
  "py_slice seq a b = take (b - a) (drop a seq)"

text \<open>
  The body of the loop over \<open>data_list\<close>: the pairs (current states, future sequence)
  appended for one trajectory. \<open>n_sub_traj\<close> is a Python integer and may be negative.
\<close>

definition delayed_of_seq :: "nat \<Rightarrow> nat \<Rightarrow> trajectory \<Rightarrow> (trajectory \<times> trajectory) list" where
  "delayed_of_seq look_back look_forward seq =
     (let n_sub_traj = int (length seq) - int look_back - int look_forward + 1 in
      if n_sub_traj \<ge> 1 then
        map (\<lambda>i. (py_slice seq i (i + look_back),
                  py_slice seq (i + look_back) (i + look_back + look_forward)))
            [0..<nat n_sub_traj]
      else [(py_slice seq 0 1, drop 1 seq)])"

text \<open>
  \<open>np.array(time_delayed_x_list)\<close>: the arrays of the list must have the same shape
  (all rows have the feature dimension of the data set, so the number of rows decides).
\<close>

definition np_array :: "trajectory list \<Rightarrow> error + trajectory list" where
  "np_array xs =
     (if list_all (\<lambda>x. length x = length (hd xs)) xs then Inr xs else Inl ValueError)"

text \<open>
  \<open>pad_sequence(sequences, True)\<close> (a library function): every sequence is padded with
  zero rows to the longest length; an empty list of sequences is an error. \<open>d\<close> is the
  feature dimension.
\<close>

definition pad_sequence :: "nat \<Rightarrow> trajectory list \<Rightarrow> error + trajectory list" where
  "pad_sequence d seqs =
     (if seqs = [] then Inl RuntimeError
      else
        let max_len = fold max (map length seqs) 0 in
        Inr (map (\<lambda>s. s @ replicate (max_len - length s) (replicate d 0)) seqs))"

text \<open>
  The result: \<open>time_delayed_x\<close>, the padded \<open>time_delayed_yseq\<close> and
  \<open>time_delayed_yseq_lens\<close>.
\<close>

definition convert_seq_list_to_delayed_data ::
  "nat \<Rightarrow> trajectory list \<Rightarrow> nat \<Rightarrow> nat
     \<Rightarrow> error + (trajectory list \<times> trajectory list \<times> nat list)" where
  "convert_seq_list_to_delayed_data d data_list look_back look_forward =
     (let pairs = concat (map (delayed_of_seq look_back look_forward) data_list);
          time_delayed_x_list = map fst pairs;
          time_delayed_yseq_list = map snd pairs;
          time_delayed_yseq_lens_list = map length time_delayed_yseq_list
      in case np_array time_delayed_x_list of
           Inl e \<Rightarrow> Inl e
         | Inr time_delayed_x \<Rightarrow>
             (case pad_sequence d time_delayed_yseq_list of
                Inl e \<Rightarrow> Inl e
              | Inr time_delayed_yseq \<Rightarrow>
                  Inr (time_delayed_x, time_delayed_yseq, time_delayed_yseq_lens_list)))"

text \<open>
  The valid lengths the windowing of one trajectory of length \<open>T\<close> is expected to give for
  look-forward \<open>L\<close>: \<open>T - L\<close> samples of length \<open>L\<close> when \<open>T > L + 1\<close>, one sample of
  length \<open>T - 1\<close> otherwise.
\<close>

definition expected_lens :: "nat \<Rightarrow> nat \<Rightarrow> nat list" where
  "expected_lens L T = (if T > L + 1 then replicate (T - L) L else [T - 1])"

section \<open>\<open>MaskedMSELoss\<close>: the masked loss\<close>

text \<open>
  A batch tensor of shape \<open>(batch_size, sequence_length, features)\<close> is the function
  from its three indices to its entries, given together with its shape \<open>(B, S, F)\<close>;
  \<open>output\<close> and \<open>target\<close> have the same shape, as the docstring of \<open>forward\<close> says.
\<close>

type_synonym tensor3 = "nat \<Rightarrow> nat \<Rightarrow> nat \<Rightarrow> real"
type_synonym mask3 = "nat \<Rightarrow> nat \<Rightarrow> nat \<Rightarrow> bool"

text \<open>
  The division \<open>squared_diff_masked.sum() / mask.sum()\<close> of two tensors never raises:
  with no unmasked element it is \<open>0 / 0\<close>, a \<open>nan\<close>. \<open>None\<close> stands for a result that
  is not a finite number.
\<close>

definition true_divide :: "real \<Rightarrow> nat \<Rightarrow> real option" where
  "true_divide s n = (if n = 0 then None else Some (s / real n))"

text \<open>
  The branch on \<open>length > self.max_look_forward\<close> in the loop of \<open>forward\<close>.
\<close>

definition length_used :: "nat \<Rightarrow> nat \<Rightarrow> nat" where
  "length_used max_look_forward len =
     (if len > max_look_forward then max_look_forward else len)"

text \<open>
  The loop \<open>for i, length in enumerate(target_lens)\<close> with the assignment
  \<open>mask[i, :length_used, :] = 1\<close>: an index \<open>i\<close> beyond the batch raises \<open>IndexError\<close>;
  the slice is clamped to the sequence length (entries outside the shape are never
  read).
\<close>

fun mask_loop :: "nat \<Rightarrow> nat \<Rightarrow> nat \<Rightarrow> nat list \<Rightarrow> mask3 \<Rightarrow> error + mask3" where
  "mask_loop max_look_forward B i [] m = Inr m"
| "mask_loop max_look_forward B i (len # lens) m =
     (if i < B then
        mask_loop max_look_forward B (Suc i) lens
          (\<lambda>a j f. if a = i \<and> j < length_used max_look_forward len then True else m a j f)
      else Inl IndexError)"

text \<open>
  \<open>tensor.sum()\<close> over a shape, and \<open>mask.sum()\<close>, the number of true entries.
\<close>

definition sum3 :: "nat \<times> nat \<times> nat \<Rightarrow> tensor3 \<Rightarrow> real" where
  "sum3 shape t = (case shape of (B, S, F) \<Rightarrow> (\<Sum>a<B. \<Sum>j<S. \<Sum>f<F. t a j f))"

definition count3 :: "nat \<times> nat \<times> nat \<Rightarrow> mask3 \<Rightarrow> nat" where
  "count3 shape m =
     (case shape of (B, S, F) \<Rightarrow> (\<Sum>a<B. \<Sum>j<S. \<Sum>f<F. if m a j f then 1 else 0))"

text \<open>
  \<open>MaskedMSELoss.forward\<close>; \<open>max_look_forward\<close> is the attribute set by \<open>__init__\<close>.
\<close>

definition MaskedMSELoss_forward ::
  "nat \<Rightarrow> nat \<times> nat \<times> nat \<Rightarrow> tensor3 \<Rightarrow> tensor3 \<Rightarrow> nat list \<Rightarrow> error + real option" where
  "MaskedMSELoss_forward max_look_forward shape output target target_lens =
     (case mask_loop max_look_forward (fst shape) 0 target_lens (\<lambda>a j f. False) of
        Inl e \<Rightarrow> Inl e
      | Inr m \<Rightarrow>
          let squared_diff = (\<lambda>a j f. (output a j f - target a j f) ^ 2);
              squared_diff_masked = (\<lambda>a j f. if m a j f then squared_diff a j f else 0);
              mse_loss = true_divide (sum3 shape squared_diff_masked) (count3 shape m)
          in Inr mse_loss)"

text \<open>
  Broadcasting of two tensor shapes (as \<open>output - target\<close> and \<open>torch.where\<close> do it):
  two sizes fit when they are equal or one of them is 1; shapes that do not fit raise
  \<open>RuntimeError\<close>. An entry of the broadcast tensor is read at index 0 along every
  dimension of size 1.
\<close>

definition broadcast_dim :: "nat \<Rightarrow> nat \<Rightarrow> nat option" where
  "broadcast_dim m n =
     (if m = n then Some m else if m = 1 then Some n else if n = 1 then Some m else None)"

definition broadcast_shapes ::
  "nat \<times> nat \<times> nat \<Rightarrow> nat \<times> nat \<times> nat \<Rightarrow> (nat \<times> nat \<times> nat) option" where
  "broadcast_shapes s t =
     (case (s, t) of ((B, S, F), (B', S', F')) \<Rightarrow>
        (case (broadcast_dim B B', broadcast_dim S S', broadcast_dim F F') of
           (Some b, Some s, Some f) \<Rightarrow> Some (b, s, f)
         | _ \<Rightarrow> None))"

definition expand_index :: "nat \<Rightarrow> nat \<Rightarrow> nat" where
  "expand_index n i = (if n = 1 then 0 else i)"

definition broadcast_to ::
  "nat \<times> nat \<times> nat \<Rightarrow> (nat \<Rightarrow> nat \<Rightarrow> nat \<Rightarrow> 'a) \<Rightarrow> nat \<Rightarrow> nat \<Rightarrow> nat \<Rightarrow> 'a" where
  "broadcast_to shape t =
     (case shape of (B, S, F) \<Rightarrow>
        (\<lambda>a j f. t (expand_index B a) (expand_index S j) (expand_index F f)))"

text \<open>
  \<open>MaskedMSELoss.forward\<close> on an \<open>output\<close> and a \<open>target\<close> that each come with a shape
  of their own. The mask has the shape of \<open>output\<close>; \<open>output - target\<close> has the broadcast
  shape, and \<open>torch.where\<close> broadcasts the mask to it; \<open>mask.sum()\<close> counts over the shape
  of the mask. The loop over \<open>target_lens\<close> runs before the subtraction.
\<close>

definition MaskedMSELoss_forward_shapes ::
  "nat \<Rightarrow> nat \<times> nat \<times> nat \<Rightarrow> tensor3 \<Rightarrow> nat \<times> nat \<times> nat \<Rightarrow> tensor3 \<Rightarrow> nat list
     \<Rightarrow> error + real option" where
  "MaskedMSELoss_forward_shapes max_look_forward output_shape output target_shape target
       target_lens =
     (case mask_loop max_look_forward (fst output_shape) 0 target_lens (\<lambda>a j f. False) of
        Inl e \<Rightarrow> Inl e
      | Inr m \<Rightarrow>
          (case broadcast_shapes output_shape target_shape of
             None \<Rightarrow> Inl RuntimeError
           | Some shape \<Rightarrow>
               let squared_diff =
                     (\<lambda>a j f. (broadcast_to output_shape output a j f
                                 - broadcast_to target_shape target a j f) ^ 2);
                   squared_diff_masked =
                     (\<lambda>a j f. if broadcast_to output_shape m a j f then squared_diff a j f
                              else 0);
                   mse_loss = true_divide (sum3 shape squared_diff_masked)
                                (count3 output_shape m)
               in Inr mse_loss))"

section \<open>\<open>DLKoopmanRegressor\<close>: the training step\<close>

text \<open>
  A row of features is the function from the feature index to the entry. The encoder,
  the decoder (\<open>FFNN.forward\<close>) and the Koopman propagator
  (\<open>BaseKoopmanOperator.forward\<close>) act on every row of a batch separately, so each is a
  map on rows; their weights are whatever the initialisation and the training so far
  have made them.
\<close>

type_synonym vec = "nat \<Rightarrow> real"

record DLKoopmanRegressor =
  reg_input_size :: nat
  reg_look_forward :: nat
  reg_using_lbfgs :: bool
  reg_masked_loss_metric :: nat
  reg_encoder :: "vec \<Rightarrow> vec"
  reg_decoder :: "vec \<Rightarrow> vec"
  reg_koopman_propagator :: "vec \<Rightarrow> vec"

text \<open>
  \<open>DLKoopmanRegressor.__init__\<close>: the attributes the training step reads. The loss
  metric is always \<open>MaskedMSELoss(1)\<close>; the attribute holds its \<open>max_look_forward\<close>.
\<close>

definition DLKoopmanRegressor_init ::
  "nat \<Rightarrow> nat \<Rightarrow> bool \<Rightarrow> (vec \<Rightarrow> vec) \<Rightarrow> (vec \<Rightarrow> vec) \<Rightarrow> (vec \<Rightarrow> vec) \<Rightarrow> DLKoopmanRegressor" where
  "DLKoopmanRegressor_init look_forward input_size lbfgs enc dec prop =
     \<lparr>reg_input_size = input_size,
      reg_look_forward = look_forward,
      reg_using_lbfgs = lbfgs,
      reg_masked_loss_metric = 1,
      reg_encoder = enc,
      reg_decoder = dec,
      reg_koopman_propagator = prop\<rparr>"

text \<open>
  \<open>torch.nn.functional.mse_loss\<close> of two \<open>(B, F)\<close> tensors (the mean over all
  entries), and the addition of two losses.
\<close>

definition mse_loss :: "nat \<times> nat \<Rightarrow> (nat \<Rightarrow> vec) \<Rightarrow> (nat \<Rightarrow> vec) \<Rightarrow> real option" where
  "mse_loss shape input target =
     (case shape of (B, F) \<Rightarrow>
        true_divide (\<Sum>a<B. \<Sum>f<F. (input a f - target a f) ^ 2) (B * F))"

definition float_add :: "real option \<Rightarrow> real option \<Rightarrow> real option" where
  "float_add u v = (case (u, v) of (Some a, Some b) \<Rightarrow> Some (a + b) | _ \<Rightarrow> None)"

text \<open>
  \<open>_propagate_encoded_n_steps\<close>: entry \<open>i\<close> of the stacked result is the encoded row
  after \<open>i + 1\<close> applications of the propagator.
\<close>

definition propagate_encoded_n_steps :: "(vec \<Rightarrow> vec) \<Rightarrow> vec \<Rightarrow> nat \<Rightarrow> vec" where
  "propagate_encoded_n_steps prop encoded i = (prop ^^ Suc i) encoded"

text \<open>
  The loss that \<open>training_step\<close> computes on a batch \<open>(x, y, ys)\<close>; with \<open>lbfgs\<close> it is
  the body of \<open>closure\<close>, the same statements. The batch gives \<open>x\<close> with its shape
  \<open>(B, Fx)\<close>, \<open>y\<close> with its shape \<open>(By, Sy, Fy)\<close> and the valid lengths \<open>ys\<close>. The result
  is \<open>(loss, rec_loss, rnn_loss)\<close>, the three logged metrics. The networks fit each
  other: the encoder reads rows of \<open>input_size\<close> features and the decoder returns rows of
  \<open>input_size\<close> features. In the order of the code:
  \<^item> \<open>ys.max()\<close> of an empty tensor raises;
  \<^item> the encoder's first linear layer raises on rows of \<open>x\<close> that do not have
    \<open>input_size\<close> features;
  \<^item> \<open>torch.stack\<close> of no propagated state (\<open>batch_look_forward = 0\<close>) raises;
  \<^item> writing \<open>decoded_y_seq_rnn[:, i, :]\<close> for \<open>i \<ge> look_forward\<close> raises \<open>IndexError\<close>;
  \<^item> the masked loss of the forecasts, of shape \<open>(B, look_forward, input_size)\<close>, against
    \<open>y\<close> raises when the shapes do not broadcast;
  \<^item> in the loop of the reconstruction, \<open>y[:, i, :]\<close> raises \<open>IndexError\<close> for \<open>i \<ge> Sy\<close>,
    the encoder raises on rows of \<open>y\<close> that do not have \<open>input_size\<close> features, and the
    assignment to \<open>decoded_y_seq_rec[:, i, :]\<close> raises unless \<open>By\<close> is \<open>B\<close> or 1.
\<close>

definition training_loss ::
  "DLKoopmanRegressor
     \<Rightarrow> (nat \<times> nat) \<times> (nat \<Rightarrow> vec) \<times> (nat \<times> nat \<times> nat) \<times> tensor3 \<times> nat list
     \<Rightarrow> error + (real option \<times> real option \<times> real option)" where
  "training_loss self batch =
     (case batch of ((B, Fx), x, (By, Sy, Fy), y, ys) \<Rightarrow>
        if ys = [] then Inl RuntimeError
        else
          let batch_look_forward = fold max ys 0 in
          if Fx \<noteq> reg_input_size self then Inl RuntimeError
          else if batch_look_forward = 0 then Inl RuntimeError
          else if batch_look_forward > reg_look_forward self then Inl IndexError
          else
            let shape = (B, reg_look_forward self, reg_input_size self);
                encoded_x = (\<lambda>a. reg_encoder self (x a));
                phi_seq = (\<lambda>a. propagate_encoded_n_steps (reg_koopman_propagator self)
                                  (encoded_x a));
                decoded_y_seq_rnn =
                  (\<lambda>a i. if i < batch_look_forward then reg_decoder self (phi_seq a i)
                          else (\<lambda>f. 0))
            in case MaskedMSELoss_forward_shapes (reg_masked_loss_metric self) shape
                      decoded_y_seq_rnn (By, Sy, Fy) y ys of
                 Inl e \<Rightarrow> Inl e
               | Inr rnn_loss \<Rightarrow>
                   let decoded_x = (\<lambda>a. reg_decoder self (encoded_x a));
                       rec_loss_x = mse_loss (B, reg_input_size self) decoded_x x
                   in
                   if Sy = 0 then Inl IndexError
                   else if Fy \<noteq> reg_input_size self then Inl RuntimeError
                   else if By \<noteq> B \<and> By \<noteq> 1 then Inl RuntimeError
                   else if batch_look_forward > Sy then Inl IndexError
                   else
                     let decoded_y_seq_rec =
                           (\<lambda>a i. if i < batch_look_forward
                                   then reg_decoder self
                                          (reg_encoder self (y (expand_index By a) i))
                                   else (\<lambda>f. 0))
                     in case MaskedMSELoss_forward_shapes (reg_masked_loss_metric self) shape
                               decoded_y_seq_rec (By, Sy, Fy) y ys of
                          Inl e \<Rightarrow> Inl e
                        | Inr rec_loss_y \<Rightarrow>
                            let rec_loss = float_add rec_loss_x rec_loss_y;
                                loss = float_add rnn_loss rec_loss
                            in Inr (loss, rec_loss, rnn_loss))"

text \<open>
  \<open>training_step\<close>: the result is the value returned and the metrics logged. Without
  \<open>lbfgs\<close> the step returns \<open>loss\<close>. With \<open>lbfgs\<close> the step is the function
  \<open>__init__\<close> installs: it runs \<open>optimizer.step(closure=closure)\<close>, which evaluates
  the closure at the current parameters, and returns \<open>None\<close>. (The optimizer may
  evaluate the closure again at parameters it has updated; each such evaluation is
  \<open>training_loss\<close> of the regressor with those parameters.)
\<close>

definition training_step ::
  "DLKoopmanRegressor
     \<Rightarrow> (nat \<times> nat) \<times> (nat \<Rightarrow> vec) \<times> (nat \<times> nat \<times> nat) \<times> tensor3 \<times> nat list
     \<Rightarrow> error + (real option option \<times> (real option \<times> real option \<times> real option))" where
  "training_step self batch =
     (case training_loss self batch of
        Inl e \<Rightarrow> Inl e
      | Inr logged \<Rightarrow>
          Inr (if reg_using_lbfgs self then None else Some (fst logged), logged))"


section \<open>\<open>SeqDataModule.prepare_data\<close> and the normalization transforms\<close>

text \<open>
  \<open>np.vstack(data_list)\<close>: an empty list, or arrays of different widths, raise
  \<open>ValueError\<close>.
\<close>

definition np_vstack :: "trajectory list \<Rightarrow> error + state list" where
  "np_vstack data_list =
     (if data_list = [] then Inl ValueError
      else if list_all (\<lambda>row. length row = length (hd (concat data_list))) (concat data_list)
      then Inr (concat data_list)
      else Inl ValueError)"

text \<open>
  \<open>mean(axis=0)\<close> and \<open>std(axis=0)\<close> work column by column; \<open>np.std\<close> is the square root
  of the mean of \<open>|x - mean|\<^sup>2\<close>.
\<close>

definition column :: "state list \<Rightarrow> nat \<Rightarrow> real list" where
  "column rows k = map (\<lambda>row. row ! k) rows"

definition np_mean :: "real list \<Rightarrow> real" where
  "np_mean col = sum_list col / real (length col)"

definition np_std :: "real list \<Rightarrow> real" where
  "np_std col = sqrt (np_mean (map (\<lambda>v. \<bar>v - np_mean col\<bar> ^ 2) col))"

text \<open>
  The loop \<open>if self.std[i] < 1e-6: self.std[i] += 1e-3\<close>.
\<close>

definition divide_by_zero_guard :: "real list \<Rightarrow> real list" where
  "divide_by_zero_guard std = map (\<lambda>s. if s < 1 / 1000000 then s + 1 / 1000 else s) std"

text \<open>
  The normalization statistics \<open>(self.mean, self.std)\<close> that \<open>prepare_data\<close> computes
  when \<open>normalize\<close> is set, from the validated \<open>data_list\<close>. With no row at all the
  statistics are \<open>nan\<close> (the result \<open>None\<close>). \<open>self.std.max()\<close> of an empty tensor
  raises.
\<close>

definition prepare_data_stats ::
  "string \<Rightarrow> real \<Rightarrow> trajectory list \<Rightarrow> error + (state \<times> state) option" where
  "prepare_data_stats normalize_mode normalize_std_factor data_list =
     (case np_vstack data_list of
        Inl e \<Rightarrow> Inl e
      | Inr stacked_data_list \<Rightarrow>
          if stacked_data_list = [] then Inr None
          else
            let d = length (hd stacked_data_list);
                mean = map (\<lambda>k. np_mean (column stacked_data_list k)) [0..<d];
                std = map (\<lambda>k. np_std (column stacked_data_list k)) [0..<d];
                self_mean = map (\<lambda>m. m * 0) mean;
                self_std = map (\<lambda>s. s * normalize_std_factor) std
            in if normalize_mode = ''max'' then
                 (if self_std = [] then Inl RuntimeError
                  else Inr (Some (self_mean,
                          divide_by_zero_guard (map (\<lambda>s. 1 * Max (set self_std)) self_std))))
               else Inr (Some (self_mean, divide_by_zero_guard self_std)))"

text \<open>
  An elementwise operation of a row with a parameter row under broadcasting: equal
  lengths, or one of the two of length 1; anything else raises. An entry of a float
  tensor is \<open>None\<close> when it is not a finite number: division by zero does not raise.
\<close>

definition broadcast_op :: "('a \<Rightarrow> real \<Rightarrow> 'b) \<Rightarrow> 'a list \<Rightarrow> real list \<Rightarrow> error + 'b list" where
  "broadcast_op f tensor param =
     (if length tensor = length param then Inr (map2 f tensor param)
      else if length param = 1 then Inr (map (\<lambda>v. f v (hd param)) tensor)
      else if length tensor = 1 then Inr (map (f (hd tensor)) param)
      else Inl RuntimeError)"

definition float_divide :: "real option \<Rightarrow> real \<Rightarrow> real option" where
  "float_divide v s = (case v of None \<Rightarrow> None | Some a \<Rightarrow> if s = 0 then None else Some (a / s))"

text \<open>
  \<open>TensorNormalize.forward\<close> and \<open>InverseTensorNormalize.forward\<close> on a row.
\<close>

definition TensorNormalize_forward ::
  "state \<Rightarrow> state \<Rightarrow> real option list \<Rightarrow> error + real option list" where
  "TensorNormalize_forward mean std tensor =
     (case broadcast_op (\<lambda>v m. map_option (\<lambda>a. a - m) v) tensor mean of
        Inl e \<Rightarrow> Inl e
      | Inr centred \<Rightarrow> broadcast_op float_divide centred std)"

definition InverseTensorNormalize_forward ::
  "state \<Rightarrow> state \<Rightarrow> real option list \<Rightarrow> error + real option list" where
  "InverseTensorNormalize_forward mean std tensor =
     (case broadcast_op (\<lambda>v s. map_option (\<lambda>a. a * s) v) tensor std of
        Inl e \<Rightarrow> Inl e
      | Inr scaled \<Rightarrow> broadcast_op (\<lambda>v m. map_option (\<lambda>a. a + m) v) scaled mean)"

text \<open>
  \<open>inverse_transform(normalization(tensor))\<close> on a row and, row by row, on a 2-D
  tensor.
\<close>

definition round_trip :: "state \<Rightarrow> state \<Rightarrow> real option list \<Rightarrow> error + real option list" where
  "round_trip mean std tensor =
     (case TensorNormalize_forward mean std tensor of
        Inl e \<Rightarrow> Inl e
      | Inr normalized \<Rightarrow> InverseTensorNormalize_forward mean std normalized)"


definition round_trip_rows ::
  "state \<Rightarrow> state \<Rightarrow> real option list list \<Rightarrow> error + real option list list" where
  "round_trip_rows mean std tensor =
     (case collect (map (TensorNormalize_forward mean std) tensor) of
        Inl e \<Rightarrow> Inl e
      | Inr normalized \<Rightarrow> collect (map (InverseTensorNormalize_forward mean std) normalized))"

section \<open>Square matrices and the Koopman propagators\<close>

text \<open>
  A parameter tensor of shape \<open>(dim, dim)\<close> is a square matrix of reals indexed by a
  finite type \<open>'n\<close> with \<open>dim\<close> elements. Sum, difference, scalar multiple
  and matrix product are the tensor operations of the same names; with the maximal
  absolute row sum as norm the matrices form a Banach algebra, so that the exponential
  series \<open>exp A = (\<Sum>n. A ^ n /\<^sub>R fact n)\<close> of the library is the matrix
  exponential that \<open>torch.matrix_exp\<close> computes (here in exact real arithmetic).
\<close>

typedef 'n mat = "UNIV :: ('n::finite \<Rightarrow> 'n \<Rightarrow> real) set"
  morphisms entry mat_of ..

setup_lifting type_definition_mat

lemma mat_eq_iff: "A = B \<longleftrightarrow> (\<forall>i j. entry A i j = entry B i j)"
  by (simp add: entry_inject [symmetric] fun_eq_iff)

lemma entry_mat_of [simp]: "entry (mat_of f) = f"
  by (simp add: mat_of_inverse)

instantiation mat :: (finite) ab_group_add
begin

lift_definition zero_mat :: "'a mat" is "\<lambda>i j. 0" .
lift_definition plus_mat :: "'a mat \<Rightarrow> 'a mat \<Rightarrow> 'a mat" is "\<lambda>A B i j. A i j + B i j" .
lift_definition uminus_mat :: "'a mat \<Rightarrow> 'a mat" is "\<lambda>A i j. - A i j" .
lift_definition minus_mat :: "'a mat \<Rightarrow> 'a mat \<Rightarrow> 'a mat" is "\<lambda>A B i j. A i j - B i j" .

instance
proof
  fix A B C :: "'a mat"
  show "A + B + C = A + (B + C)" by transfer (simp add: add.assoc)
  show "A + B = B + A" by transfer (simp add: add.commute)
  show "0 + A = A" by transfer simp
  show "- A + A = 0" by transfer simp
  show "A - B = A + - B" by transfer simp
qed

end

instantiation mat :: (finite) ring_1
begin

lift_definition one_mat :: "'a mat" is "\<lambda>i j. if i = j then 1 else 0" .
lift_definition times_mat :: "'a mat \<Rightarrow> 'a mat \<Rightarrow> 'a mat"
  is "\<lambda>A B i j. \<Sum>k\<in>UNIV. A i k * B k j" .

instance
proof
  fix A B C :: "'a mat"
  show "A * B * C = A * (B * C)"
  proof (transfer, intro ext)
    fix A B C :: "'a \<Rightarrow> 'a \<Rightarrow> real" and i j
    have "(\<Sum>k\<in>UNIV. (\<Sum>l\<in>UNIV. A i l * B l k) * C k j)
        = (\<Sum>k\<in>UNIV. \<Sum>l\<in>UNIV. A i l * (B l k * C k j))"
      by (simp add: sum_distrib_right mult.assoc)
    also have "\<dots> = (\<Sum>l\<in>UNIV. \<Sum>k\<in>UNIV. A i l * (B l k * C k j))"
      by (rule sum.swap)
    also have "\<dots> = (\<Sum>l\<in>UNIV. A i l * (\<Sum>k\<in>UNIV. B l k * C k j))"
      by (simp add: sum_distrib_left)
    finally show "(\<Sum>k\<in>UNIV. (\<Sum>l\<in>UNIV. A i l * B l k) * C k j)
        = (\<Sum>l\<in>UNIV. A i l * (\<Sum>k\<in>UNIV. B l k * C k j))" .
  qed
  show "1 * A = A"
  proof (transfer, intro ext)
    fix A :: "'a \<Rightarrow> 'a \<Rightarrow> real" and i j
    have "(\<Sum>k\<in>UNIV. (if i = k then 1 else 0) * A k j) = (\<Sum>k\<in>UNIV. if i = k then A k j else 0)"
      by (intro sum.cong) auto
    then show "(\<Sum>k\<in>UNIV. (if i = k then 1 else 0) * A k j) = A i j"
      by (simp add: sum.delta)
  qed
  show "A * 1 = A"
  proof (transfer, intro ext)
    fix A :: "'a \<Rightarrow> 'a \<Rightarrow> real" and i j
    have "(\<Sum>k\<in>UNIV. A i k * (if k = j then 1 else 0)) = (\<Sum>k\<in>UNIV. if k = j then A i k else 0)"
      by (intro sum.cong) auto
    then show "(\<Sum>k\<in>UNIV. A i k * (if k = j then 1 else 0)) = A i j"
      by (simp add: sum.delta')
  qed
  show "(A + B) * C = A * C + B * C"
    by transfer (simp add: distrib_right sum.distrib)
  show "A * (B + C) = A * B + A * C"
    by transfer (simp add: distrib_left sum.distrib)
  show "(0::'a mat) \<noteq> 1"
  proof
    assume "(0::'a mat) = 1"
    then have "entry (0::'a mat) undefined undefined = entry (1::'a mat) undefined undefined"
      by simp
    then show False by (simp add: zero_mat.rep_eq one_mat.rep_eq)
  qed
qed

end

instantiation mat :: (finite) real_algebra_1
begin

lift_definition scaleR_mat :: "real \<Rightarrow> 'a mat \<Rightarrow> 'a mat" is "\<lambda>r A i j. r * A i j" .

instance
proof
  fix a b :: real and A B :: "'a mat"
  show "a *\<^sub>R (A + B) = a *\<^sub>R A + a *\<^sub>R B"
    by transfer (simp add: distrib_left)
  show "(a + b) *\<^sub>R A = a *\<^sub>R A + b *\<^sub>R A"
    by transfer (simp add: distrib_right)
  show "a *\<^sub>R b *\<^sub>R A = (a * b) *\<^sub>R A"
    by transfer (simp add: mult.assoc)
  show "1 *\<^sub>R A = A"
    by transfer simp
  show "a *\<^sub>R A * B = a *\<^sub>R (A * B)"
    by transfer (simp add: sum_distrib_left mult.assoc)
  show "A * a *\<^sub>R B = a *\<^sub>R (A * B)"
    by transfer (simp add: sum_distrib_left mult.left_commute)
qed

end

definition row_sum :: "'n::finite mat \<Rightarrow> 'n \<Rightarrow> real" where
  "row_sum A i = (\<Sum>j\<in>UNIV. \<bar>entry A i j\<bar>)"

lemma row_sum_nonneg: "0 \<le> row_sum A i"
  by (simp add: row_sum_def sum_nonneg)

lemma entry_le_row_sum: "\<bar>entry A i j\<bar> \<le> row_sum A i"
  unfolding row_sum_def
  by (rule member_le_sum) simp_all

instantiation mat :: (finite) real_normed_algebra_1
begin

definition norm_mat :: "'a mat \<Rightarrow> real" where
  "norm_mat A = Max (range (row_sum A))"

definition sgn_mat :: "'a mat \<Rightarrow> 'a mat" where
  "sgn_mat A = A /\<^sub>R norm A"

definition dist_mat :: "'a mat \<Rightarrow> 'a mat \<Rightarrow> real" where
  "dist_mat A B = norm (A - B)"

definition uniformity_mat :: "('a mat \<times> 'a mat) filter" where
  "uniformity_mat = (INF e\<in>{0 <..}. principal {(A, B). dist A B < e})"

definition open_mat :: "'a mat set \<Rightarrow> bool" where
  "open_mat U \<longleftrightarrow> (\<forall>A\<in>U. eventually (\<lambda>(A', B). A' = A \<longrightarrow> B \<in> U) uniformity)"

lemma row_sum_le_norm: "row_sum A i \<le> norm A"
  unfolding norm_mat_def by (rule Max_ge) simp_all

lemma norm_mat_le: "(\<And>i. row_sum A i \<le> b) \<Longrightarrow> norm A \<le> b"
  unfolding norm_mat_def by (rule Max.boundedI) auto

instance
proof
  fix r :: real and A B :: "'a mat" and U :: "'a mat set"
  show "dist A B = norm (A - B)" by (rule dist_mat_def)
  show "sgn A = A /\<^sub>R norm A" by (rule sgn_mat_def)
  show "uniformity = (INF e\<in>{0 <..}. principal {(A::'a mat, B). dist A B < e})"
    by (rule uniformity_mat_def)
  show "open U \<longleftrightarrow> (\<forall>A\<in>U. eventually (\<lambda>(A', B). A' = A \<longrightarrow> B \<in> U) uniformity)"
    by (rule open_mat_def)
  show "norm A = 0 \<longleftrightarrow> A = 0"
  proof
    assume z: "norm A = 0"
    have "entry A i j = 0" for i j
    proof -
      have "\<bar>entry A i j\<bar> \<le> norm A"
        using entry_le_row_sum row_sum_le_norm by (rule order_trans)
      with z show ?thesis by simp
    qed
    then show "A = 0" by (simp add: mat_eq_iff zero_mat.rep_eq)
  next
    assume "A = 0"
    then have "row_sum A i = 0" for i
      by (simp add: row_sum_def zero_mat.rep_eq)
    then show "norm A = 0" by (simp add: norm_mat_def)
  qed
  show "norm (A + B) \<le> norm A + norm B"
  proof (rule norm_mat_le)
    fix i
    have "row_sum (A + B) i \<le> row_sum A i + row_sum B i"
      unfolding row_sum_def plus_mat.rep_eq sum.distrib [symmetric]
      by (rule sum_mono) simp
    also have "\<dots> \<le> norm A + norm B"
      by (intro add_mono row_sum_le_norm)
    finally show "row_sum (A + B) i \<le> norm A + norm B" .
  qed
  show "norm (r *\<^sub>R A) = \<bar>r\<bar> * norm A"
  proof -
    have "row_sum (r *\<^sub>R A) = (\<lambda>i. \<bar>r\<bar> * row_sum A i)"
      by (simp add: fun_eq_iff row_sum_def scaleR_mat.rep_eq abs_mult sum_distrib_left)
    then have "norm (r *\<^sub>R A) = Max ((\<lambda>x. \<bar>r\<bar> * x) ` range (row_sum A))"
      by (simp add: norm_mat_def image_image)
    also have "\<dots> = \<bar>r\<bar> * Max (range (row_sum A))"
      by (intro mono_Max_commute [symmetric] monoI mult_left_mono) simp_all
    finally show ?thesis by (simp add: norm_mat_def)
  qed
  show "norm (A * B) \<le> norm A * norm B"
  proof (rule norm_mat_le)
    fix i
    have "row_sum (A * B) i \<le> (\<Sum>j\<in>UNIV. \<Sum>k\<in>UNIV. \<bar>entry A i k\<bar> * \<bar>entry B k j\<bar>)"
      unfolding row_sum_def times_mat.rep_eq
      by (intro sum_mono order_trans [OF sum_abs]) (simp add: abs_mult)
    also have "\<dots> = (\<Sum>k\<in>UNIV. \<bar>entry A i k\<bar> * row_sum B k)"
      unfolding row_sum_def sum_distrib_left by (rule sum.swap)
    also have "\<dots> \<le> (\<Sum>k\<in>UNIV. \<bar>entry A i k\<bar> * norm B)"
      by (intro sum_mono mult_left_mono row_sum_le_norm) simp
    also have "\<dots> = row_sum A i * norm B"
      by (simp add: row_sum_def sum_distrib_right)
    also have "\<dots> \<le> norm A * norm B"
      by (intro mult_right_mono row_sum_le_norm order_trans [OF row_sum_nonneg row_sum_le_norm])
    finally show "row_sum (A * B) i \<le> norm A * norm B" .
  qed
  show "norm (1::'a mat) = 1"
  proof -
    have "row_sum (1::'a mat) i = 1" for i
    proof -
      have "row_sum (1::'a mat) i = (\<Sum>j\<in>UNIV. if i = j then 1 else 0)"
        unfolding row_sum_def one_mat.rep_eq by (intro sum.cong) auto
      then show ?thesis by (simp add: sum.delta)
    qed
    then show ?thesis by (simp add: norm_mat_def)
  qed
qed

end


lemma entry_le_norm: "\<bar>entry A i j\<bar> \<le> norm A"
  using entry_le_row_sum row_sum_le_norm by (rule order_trans)

lemma norm_le_sum_entries: "norm A \<le> (\<Sum>i\<in>UNIV. \<Sum>j\<in>UNIV. \<bar>entry A i j\<bar>)"
proof (rule norm_mat_le)
  fix i
  have "row_sum A i \<le> (\<Sum>i\<in>UNIV. row_sum A i)"
    by (rule member_le_sum) (simp_all add: row_sum_nonneg)
  then show "row_sum A i \<le> (\<Sum>i\<in>UNIV. \<Sum>j\<in>UNIV. \<bar>entry A i j\<bar>)"
    by (simp add: row_sum_def)
qed

instance mat :: (finite) banach
proof
  fix X :: "nat \<Rightarrow> 'a mat"
  assume X: "Cauchy X"
  have entry_Cauchy: "Cauchy (\<lambda>n. entry (X n) i j)" for i j
  proof (rule CauchyI)
    fix e :: real assume "0 < e"
    with X obtain M where M: "\<forall>m\<ge>M. \<forall>n\<ge>M. norm (X m - X n) < e"
      by (auto dest: CauchyD)
    have "norm (entry (X m) i j - entry (X n) i j) < e" if "m \<ge> M" "n \<ge> M" for m n
    proof -
      have "\<bar>entry (X m - X n) i j\<bar> \<le> norm (X m - X n)" by (rule entry_le_norm)
      also have "\<dots> < e" using M that by blast
      finally show ?thesis by (simp add: minus_mat.rep_eq)
    qed
    then show "\<exists>M. \<forall>m\<ge>M. \<forall>n\<ge>M. norm (entry (X m) i j - entry (X n) i j) < e"
      by blast
  qed
  define L where "L = mat_of (\<lambda>i j. lim (\<lambda>n. entry (X n) i j))"
  have entry_lim: "(\<lambda>n. entry (X n) i j) \<longlonglongrightarrow> entry L i j" for i j
    using entry_Cauchy [of i j]
    by (simp add: L_def Cauchy_convergent_iff convergent_LIMSEQ_iff)
  have "(\<lambda>n. \<Sum>i\<in>UNIV. \<Sum>j\<in>UNIV. \<bar>entry (X n) i j - entry L i j\<bar>)
      \<longlonglongrightarrow> (\<Sum>i\<in>(UNIV::'a set). \<Sum>j\<in>(UNIV::'a set). \<bar>entry L i j - entry L i j\<bar>)"
    by (intro tendsto_sum tendsto_rabs tendsto_diff entry_lim tendsto_const)
  then have bound: "(\<lambda>n. \<Sum>i\<in>UNIV. \<Sum>j\<in>UNIV. \<bar>entry (X n) i j - entry L i j\<bar>)
      \<longlonglongrightarrow> 0"
    by simp
  have "(\<lambda>n. norm (X n - L)) \<longlonglongrightarrow> 0"
  proof (rule tendsto_sandwich [OF _ _ tendsto_const bound])
    show "\<forall>\<^sub>F n in sequentially. 0 \<le> norm (X n - L)" by simp
    show "\<forall>\<^sub>F n in sequentially.
        norm (X n - L) \<le> (\<Sum>i\<in>UNIV. \<Sum>j\<in>UNIV. \<bar>entry (X n) i j - entry L i j\<bar>)"
      using norm_le_sum_entries [of "X _ - L"] by (simp add: minus_mat.rep_eq)
  qed
  then have "X \<longlonglongrightarrow> L"
    by (rule LIM_zero_cancel [OF tendsto_norm_zero_cancel])
  then show "convergent X" by (rule convergentI)
qed

text \<open>
  \<open>tensor.t()\<close> and \<open>torch.diag(vector)\<close>.
\<close>

lift_definition transpose_mat :: "'n::finite mat \<Rightarrow> 'n mat" is "\<lambda>A i j. A j i" .

lift_definition diag :: "('n::finite \<Rightarrow> real) \<Rightarrow> 'n mat" is "\<lambda>d i j. if i = j then d i else 0" .

text \<open>
  The three propagators with their parameters: \<open>K\<close>; \<open>off_diagonal\<close>;
  \<open>off_diagonal\<close> and \<open>diagonal\<close>. The parameters are whatever training has made them:
  \<open>__init__\<close> only draws their initial values (for \<open>diagonal\<close>, minus the square of a
  truncated normal sample). \<open>get_K\<close> is the method of each class.
\<close>

datatype ('n::finite) KoopmanOperator =
    StandardKoopmanOperator "'n mat"
  | HamiltonianKoopmanOperator "'n mat"
  | DissipativeKoopmanOperator "'n mat" "'n \<Rightarrow> real"

fun get_K :: "'n::finite KoopmanOperator \<Rightarrow> 'n mat" where
  "get_K (StandardKoopmanOperator K) = K"
| "get_K (HamiltonianKoopmanOperator off_diagonal) = off_diagonal - transpose_mat off_diagonal"
| "get_K (DissipativeKoopmanOperator off_diagonal diagonal)
     = diag diagonal + off_diagonal - transpose_mat off_diagonal"

text \<open>
  \<open>BaseKoopmanOperator.get_discrete_time_Koopman_Operator\<close>:
  \<open>torch.matrix_exp(self.dt * self.get_K())\<close>.
\<close>

definition get_discrete_time_Koopman_Operator ::
  "real \<Rightarrow> 'n::finite KoopmanOperator \<Rightarrow> 'n mat" where
  "get_discrete_time_Koopman_Operator dt self = exp (dt *\<^sub>R get_K self)"

text \<open>
  A complex number is an eigenvalue of a real matrix when the matrix maps some non-zero
  complex vector to its multiple by that number.
\<close>

definition mat_vec :: "'n::finite mat \<Rightarrow> ('n \<Rightarrow> complex) \<Rightarrow> 'n \<Rightarrow> complex" where
  "mat_vec A v i = (\<Sum>j\<in>UNIV. of_real (entry A i j) * v j)"

definition eigenvalue :: "'n::finite mat \<Rightarrow> complex \<Rightarrow> bool" where
  "eigenvalue A l \<longleftrightarrow> (\<exists>v. v \<noteq> (\<lambda>i. 0) \<and> mat_vec A v = (\<lambda>i. l * v i))"

text \<open>
  A sample parameter of dimension 2: \<open>off_diagonal = [[0, 1], [0, 0]]\<close>.
\<close>

definition rotation_generator :: "2 mat" where
  "rotation_generator = mat_of (\<lambda>i j. if i = 0 \<and> j = 1 then 1 else 0)"

section \<open>Windowing and network layout\<close>

lemma delayed_of_seq_long:
  assumes "length seq \<ge> L + 1"
  shows "delayed_of_seq 1 L seq
           = map (\<lambda>i. ([seq ! i], take L (drop (Suc i) seq))) [0..<length seq - L]"
proof -
  have n: "nat (int (length seq) - int 1 - int L + 1) = length seq - L"
    using assms by simp
  have "py_slice seq i (i + 1) = [seq ! i]" if "i < length seq - L" for i
  proof -
    have "i < length seq" using that by simp
    then show ?thesis
      by (simp add: py_slice_def take_Suc_conv_app_nth hd_drop_conv_nth take_Suc)
  qed
  moreover have "py_slice seq (i + 1) (i + 1 + L) = take L (drop (Suc i) seq)" for i
    by (simp add: py_slice_def)
  ultimately show ?thesis
    using assms unfolding delayed_of_seq_def Let_def n by simp
qed

lemma delayed_of_seq_short:
  assumes "length seq < L + 1" "seq \<noteq> []"
  shows "delayed_of_seq 1 L seq = [([seq ! 0], tl seq)]"
proof -
  have "py_slice seq 0 1 = [seq ! 0]"
    using assms(2) by (cases seq) (simp_all add: py_slice_def)
  then show ?thesis
    using assms(1) by (simp add: delayed_of_seq_def drop_Suc)
qed

lemma lens_of_seq:
  assumes "seq \<noteq> []"
  shows "map (length \<circ> snd) (delayed_of_seq 1 L seq) = expected_lens L (length seq)"
proof (cases "length seq \<ge> L + 1")
  case True
  have "map (length \<circ> snd) (delayed_of_seq 1 L seq)
          = map (\<lambda>i. L) [0..<length seq - L]"
    unfolding delayed_of_seq_long [OF True] by (auto simp: min_def)
  also have "\<dots> = replicate (length seq - L) L"
    by (simp add: map_replicate_const)
  also have "\<dots> = expected_lens L (length seq)"
    using True by (cases "length seq = L + 1") (auto simp: expected_lens_def)
  finally show ?thesis .
next
  case False
  then have short: "length seq < L + 1" by simp
  show ?thesis
    unfolding delayed_of_seq_short [OF short assms]
    using short by (simp add: expected_lens_def)
qed

lemma x_rows_of_seq:
  assumes "seq \<noteq> []"
  shows "\<forall>p \<in> set (delayed_of_seq 1 L seq). length (fst p) = 1"
proof (cases "length seq \<ge> L + 1")
  case True
  show ?thesis unfolding delayed_of_seq_long [OF True] by auto
next
  case False
  then have short: "length seq < L + 1" by simp
  show ?thesis unfolding delayed_of_seq_short [OF short assms] by simp
qed

lemma delayed_of_seq_nonempty: "delayed_of_seq lb L seq \<noteq> []"
  by (auto simp: delayed_of_seq_def Let_def)

lemma windows_result:
  assumes ne: "data_list \<noteq> []" and rows: "\<forall>seq \<in> set data_list. seq \<noteq> []"
  shows "\<exists>x y. convert_seq_list_to_delayed_data d data_list 1 L
            = Inr (x, y, concat (map (\<lambda>seq. expected_lens L (length seq)) data_list))"
proof -
  define pairs where "pairs = concat (map (delayed_of_seq 1 L) data_list)"
  have one: "\<forall>p \<in> set pairs. length (fst p) = 1"
    using rows x_rows_of_seq unfolding pairs_def by auto
  have pne: "pairs \<noteq> []"
    using ne delayed_of_seq_nonempty unfolding pairs_def by (cases data_list) auto
  have arr: "np_array (map fst pairs) = Inr (map fst pairs)"
  proof -
    have "length (hd (map fst pairs)) = 1"
      using pne one by (cases pairs) auto
    then show ?thesis using one by (simp add: np_array_def list_all_iff)
  qed
  have pad: "\<exists>y. pad_sequence d (map snd pairs) = Inr y"
    using pne by (simp add: pad_sequence_def Let_def)
  have lens: "map length (map snd pairs)
                = concat (map (\<lambda>seq. expected_lens L (length seq)) data_list)"
  proof -
    have "map length (map snd pairs)
            = concat (map (\<lambda>seq. map (length \<circ> snd) (delayed_of_seq 1 L seq)) data_list)"
      unfolding pairs_def by (simp add: map_concat comp_def)
    also have "\<dots> = concat (map (\<lambda>seq. expected_lens L (length seq)) data_list)"
      using rows lens_of_seq by (intro arg_cong [where f = concat] map_cong) auto
    finally show ?thesis .
  qed
  from pad obtain y where y: "pad_sequence d (map snd pairs) = Inr y" by blast
  show ?thesis
    unfolding convert_seq_list_to_delayed_data_def Let_def pairs_def [symmetric]
    using arr y lens by simp
qed


lemma fold_max_const:
  assumes "\<forall>n \<in> set ns. n = m" "ns \<noteq> []"
  shows "fold max ns (0::nat) = m"
proof -
  have "fold max ns a = max a m" if "\<forall>n \<in> set ns. n = m" "ns \<noteq> []" for a
    using that
  proof (induction ns arbitrary: a)
    case Nil
    then show ?case by simp
  next
    case (Cons n ns)
    show ?case
    proof (cases "ns = []")
      case True
      with Cons.prems show ?thesis by simp
    next
      case False
      with Cons show ?thesis by (simp add: max.assoc)
    qed
  qed
  from this [OF assms] show ?thesis by simp
qed

lemma pad_sequence_same_length:
  assumes "\<forall>s \<in> set seqs. length s = m" "seqs \<noteq> []"
  shows "pad_sequence d seqs = Inr seqs"
proof -
  have "fold max (map length seqs) 0 = m"
    using assms by (intro fold_max_const) auto
  then show ?thesis
    using assms by (simp add: pad_sequence_def map_idI)
qed

text \<open>
  C1. Windowing one trajectory of length \<open>T\<close> with look-back 1 and look-forward \<open>L\<close>:
  when \<open>T > L + 1\<close> there are exactly \<open>T - L\<close> samples, sample \<open>i\<close> being the state
  \<open>seq[i]\<close> with the \<open>L\<close> states after it, each of valid length \<open>L\<close>; when
  \<open>T \<le> L + 1\<close> there is exactly one sample, the first state with the sequence from the
  second state to the last, of valid length \<open>T - 1\<close>. A trajectory has at least one
  state (an array with no row gives one sample of valid length 0).
\<close>

theorem windowing_sample_count:
  assumes "seq \<noteq> []"
  shows "(length seq > L + 1 \<longrightarrow>
            convert_seq_list_to_delayed_data d [seq] 1 L
              = Inr (map (\<lambda>i. [seq ! i]) [0..<length seq - L],
                     map (\<lambda>i. take L (drop (Suc i) seq)) [0..<length seq - L],
                     replicate (length seq - L) L))
       \<and> (length seq \<le> L + 1 \<longrightarrow>
            convert_seq_list_to_delayed_data d [seq] 1 L
              = Inr ([[seq ! 0]], [tl seq], [length seq - 1])
            \<and> int (length (tl seq)) = int (length seq) - 1)"
proof (intro conjI impI)
  assume long: "length seq > L + 1"
  then have ge: "length seq \<ge> L + 1" by simp
  let ?n = "length seq - L"
  let ?ys = "map (\<lambda>i. take L (drop (Suc i) seq)) [0..<?n]"
  have ys: "map snd (delayed_of_seq 1 L seq) = ?ys"
    unfolding delayed_of_seq_long [OF ge] by (simp add: comp_def)
  have xs: "map fst (delayed_of_seq 1 L seq) = map (\<lambda>i. [seq ! i]) [0..<?n]"
    unfolding delayed_of_seq_long [OF ge] by (simp add: comp_def)
  have len: "\<forall>s \<in> set ?ys. length s = L"
    by (auto simp: min_def)
  have "?ys \<noteq> []" using long by simp
  with len have pad: "pad_sequence d ?ys = Inr ?ys"
    by (rule pad_sequence_same_length)
  have arr: "np_array (map (\<lambda>i. [seq ! i]) [0..<?n]) = Inr (map (\<lambda>i. [seq ! i]) [0..<?n])"
    using long by (simp add: np_array_def list_all_iff hd_map upt_conv_Cons)
  have "map length ?ys = map (\<lambda>i. L) [0..<?n]"
    by (auto simp: min_def)
  then have lens: "map length ?ys = replicate ?n L"
    by (simp add: map_replicate_const)
  show "convert_seq_list_to_delayed_data d [seq] 1 L
          = Inr (map (\<lambda>i. [seq ! i]) [0..<?n], ?ys, replicate ?n L)"
    unfolding convert_seq_list_to_delayed_data_def Let_def
    using xs ys pad arr lens by simp
next
  assume short: "length seq \<le> L + 1"
  have pairs: "delayed_of_seq 1 L seq = [([seq ! 0], tl seq)]"
  proof (cases "length seq = L + 1")
    case True
    then have ge: "length seq \<ge> L + 1" by simp
    have "take L (drop (Suc 0) seq) = tl seq"
      using True by (simp add: drop_Suc)
    then show ?thesis
      unfolding delayed_of_seq_long [OF ge] using True by simp
  next
    case False
    with short have "length seq < L + 1" by simp
    then show ?thesis using assms by (rule delayed_of_seq_short)
  qed
  show "convert_seq_list_to_delayed_data d [seq] 1 L
          = Inr ([[seq ! 0]], [tl seq], [length seq - 1])"
    unfolding convert_seq_list_to_delayed_data_def Let_def
    using pairs by (simp add: np_array_def pad_sequence_def)
next
  show "int (length (tl seq)) = int (length seq) - 1"
    using assms by (cases seq) simp_all
qed

theorem windowing_sample_count_witness:
  "convert_seq_list_to_delayed_data 1 [[[1], [2], [3], [4]]] 1 2
     = Inr ([[[1]], [[2]]], [[[2], [3]], [[3], [4]]], [2, 2])
   \<and> convert_seq_list_to_delayed_data 1 [[[1], [2], [3]]] 1 5
     = Inr ([[[1]]], [[[2], [3]]], [2])"
proof -
  have a: "[[1], [2], [3], [4::real]] \<noteq> []" and b: "[[1], [2], [3::real]] \<noteq> []"
    by simp_all
  have "[0..<2] = [0, Suc 0]" by (simp add: upt_conv_Cons)
  with windowing_sample_count [OF a, of 2 1] windowing_sample_count [OF b, of 5 1]
  show ?thesis by (simp add: drop_Suc)
qed

lemma linear_biases_append: "linear_biases (xs @ ys) = linear_biases xs @ linear_biases ys"
  by (induction xs rule: linear_biases.induct) simp_all

lemma linear_biases_concat:
  "linear_biases (concat xss) = concat (map linear_biases xss)"
  by (induction xss) (simp_all add: linear_biases_append)

lemma linear_biases_act_layers: "linear_biases (act_layers a act) = []"
  by (simp add: act_layers_def)

lemma linear_biases_hidden_layers:
  "set (linear_biases (hidden_layers hs bias a act)) \<subseteq> {bias}"
  by (auto simp: hidden_layers_def linear_biases_concat linear_biases_act_layers)

text \<open>
  C6, as the code has it. With at least one hidden layer the last layer is linear and
  carries no bias, whatever the activation. With no hidden layer the network is the
  single layer \<open>nn.Linear(input_size, output_size, bias)\<close>, which carries a bias
  unless the activation is \<open>"linear"\<close>. With the activation \<open>"linear"\<close> no layer carries
  a bias.
\<close>

theorem FFNN_bias_layout:
  assumes "FFNN_init input_size hidden_sizes output_size activations = Inr layers"
  shows "(hidden_sizes \<noteq> [] \<longrightarrow>
            last layers = Linear (last hidden_sizes) output_size False
            \<and> last (linear_biases layers) = False)
       \<and> (hidden_sizes = [] \<longrightarrow>
            layers = [Linear input_size output_size (activations \<noteq> ''linear'')])
       \<and> (activations = ''linear'' \<longrightarrow> (\<forall>b \<in> set (linear_biases layers). b = False))"
proof -
  from assms obtain act where act: "activations_dict activations = Some act"
    by (auto simp: FFNN_init_def split: option.splits)
  show ?thesis
  proof (cases "hidden_sizes = []")
    case True
    with assms act show ?thesis by (auto simp: FFNN_init_def)
  next
    case False
    let ?bias = "activations \<noteq> ''linear''"
    from assms act False have layers:
      "layers = Linear input_size (hidden_sizes ! 0) ?bias # act_layers activations act
                 @ hidden_layers hidden_sizes ?bias activations act
                 @ [Linear (last hidden_sizes) output_size False]"
      by (auto simp: FFNN_init_def Let_def)
    have biases: "linear_biases layers
        = ?bias # linear_biases (hidden_layers hidden_sizes ?bias activations act) @ [False]"
      unfolding layers by (simp add: linear_biases_append linear_biases_act_layers)
    have "last layers = Linear (last hidden_sizes) output_size False"
      unfolding layers by simp
    moreover have "last (linear_biases layers) = False"
      unfolding biases by simp
    moreover have "\<forall>b \<in> set (linear_biases layers). b = False" if "activations = ''linear''"
      using linear_biases_hidden_layers [of hidden_sizes ?bias activations act] that
      unfolding biases by auto
    ultimately show ?thesis using False by blast
  qed
qed

theorem FFNN_bias_layout_witness:
  "last [Linear 2 4 True, Activation Tanh, Linear 4 5 True, Activation Tanh, Linear 5 3 False]
     = Linear (last [4, 5]) 3 False
   \<and> last (linear_biases
        [Linear 2 4 True, Activation Tanh, Linear 4 5 True, Activation Tanh, Linear 5 3 False])
     = False
   \<and> FFNN_init 6 [] 2 ''linear'' = Inr [Linear 6 2 False]
   \<and> linear_biases [Linear 6 2 False] = [False]"
proof -
  have a: "FFNN_init 2 [4, 5] 3 ''tanh''
      = Inr [Linear 2 4 True, Activation Tanh, Linear 4 5 True, Activation Tanh, Linear 5 3 False]"
    by (simp add: FFNN_init_def activations_dict_def act_layers_def hidden_layers_def
        upt_conv_Cons)
  have b: "FFNN_init 6 [] 2 ''linear'' = Inr [Linear 6 2 False]"
    by (simp add: FFNN_init_def activations_dict_def)
  from FFNN_bias_layout [OF a] FFNN_bias_layout [OF b] b show ?thesis by simp
qed

text \<open>
  C6, as stated, fails for an empty list of hidden sizes: the only (and so the last)
  linear layer of \<open>FFNN(2, [], 3, "relu")\<close> carries a bias.
\<close>

theorem FFNN_single_layer_has_bias:
  "FFNN_init 2 [] 3 ''relu'' = Inr [Linear 2 3 True]
   \<and> last (linear_biases [Linear 2 3 True]) = True"
  by (simp add: FFNN_init_def activations_dict_def)

section \<open>The masked loss and the training step\<close>

lemma mask_loop_result:
  assumes "i + length lens \<le> B"
  shows "mask_loop cap B i lens m
     = Inr (\<lambda>a j f. (i \<le> a \<and> a < i + length lens \<and> j < length_used cap (lens ! (a - i)))
                     \<or> m a j f)"
  using assms
proof (induction lens arbitrary: i m)
  case Nil
  then show ?case by (auto intro!: ext)
next
  case (Cons len lens)
  have le: "Suc i + length lens \<le> B" and lt: "i < B" using Cons.prems by simp_all
  let ?m' = "\<lambda>a j f. if a = i \<and> j < length_used cap len then True else m a j f"
  have "(\<lambda>a j f. (Suc i \<le> a \<and> a < Suc i + length lens
                       \<and> j < length_used cap (lens ! (a - Suc i))) \<or> ?m' a j f)
      = (\<lambda>a j f. (i \<le> a \<and> a < i + length (len # lens)
                       \<and> j < length_used cap ((len # lens) ! (a - i))) \<or> m a j f)"
  proof (intro ext)
    fix a j f
    consider "a < i" | "a = i" | "a > i" by linarith
    then show "((Suc i \<le> a \<and> a < Suc i + length lens
                    \<and> j < length_used cap (lens ! (a - Suc i))) \<or> ?m' a j f)
             = ((i \<le> a \<and> a < i + length (len # lens)
                    \<and> j < length_used cap ((len # lens) ! (a - i))) \<or> m a j f)"
    proof cases
      case 1
      then show ?thesis by simp
    next
      case 2
      then show ?thesis by simp
    next
      case 3
      then obtain k where k: "a - i = Suc k" "a - Suc i = k"
        by (metis Suc_diff_Suc diff_Suc_eq_diff_pred diff_Suc_1)
      with 3 show ?thesis by simp
    qed
  qed
  with Cons.IH [OF le, of ?m'] lt show ?case by simp
qed

lemma mask_loop_error:
  assumes "i \<le> B" "i + length lens > B"
  shows "mask_loop cap B i lens m = Inl IndexError"
  using assms by (induction lens arbitrary: i m) auto

lemma forward_general:
  assumes "length target_lens \<le> B"
  shows "MaskedMSELoss_forward cap (B, S, F) output target target_lens
     = Inr (true_divide
         (\<Sum>a<B. \<Sum>j<S. \<Sum>f<F.
             if a < length target_lens \<and> j < length_used cap (target_lens ! a)
             then (output a j f - target a j f) ^ 2 else 0)
         (\<Sum>a<B. \<Sum>j<S. \<Sum>f<F.
             if a < length target_lens \<and> j < length_used cap (target_lens ! a) then 1 else 0))"
  using assms
  by (simp add: MaskedMSELoss_forward_def mask_loop_result sum3_def count3_def)

lemma length_used_1: "j < length_used (Suc 0) n \<longleftrightarrow> j = 0 \<and> Suc 0 \<le> n"
  by (auto simp: length_used_def)

lemma sum_position_0:
  fixes g :: "nat \<Rightarrow> 'a::comm_monoid_add"
  assumes "1 \<le> S"
  shows "(\<Sum>j<S. if P \<and> j = 0 \<and> Q then g j else 0) = (if P \<and> Q then g 0 else 0)"
proof (cases "P \<and> Q")
  case True
  then have "(\<Sum>j<S. if P \<and> j = 0 \<and> Q then g j else 0) = (\<Sum>j<S. if j = 0 then g 0 else 0)"
    by (intro sum.cong) auto
  also have "\<dots> = g 0" using assms by (simp add: sum.delta')
  finally show ?thesis using True by simp
next
  case False
  then have "(\<Sum>j<S. if P \<and> j = 0 \<and> Q then g j else 0) = (\<Sum>j<S. 0)"
    by (intro sum.cong) auto
  then show ?thesis using False by auto
qed

lemma forward_cap_1_general:
  assumes len: "length target_lens \<le> B" and S: "1 \<le> S"
  shows "MaskedMSELoss_forward 1 (B, S, F) output target target_lens
     = Inr (true_divide
         (\<Sum>a<B. if a < length target_lens \<and> 1 \<le> target_lens ! a
                 then (\<Sum>f<F. (output a 0 f - target a 0 f) ^ 2) else 0)
         (\<Sum>a<B. if a < length target_lens \<and> 1 \<le> target_lens ! a then F else 0))"
proof -
  have num: "(\<Sum>j<S. \<Sum>f<F.
             if a < length target_lens \<and> j < length_used 1 (target_lens ! a)
             then (output a j f - target a j f) ^ 2 else 0)
      = (if a < length target_lens \<and> 1 \<le> target_lens ! a
         then (\<Sum>f<F. (output a 0 f - target a 0 f) ^ 2) else 0)" for a
  proof -
    have "(\<Sum>j<S. \<Sum>f<F.
             if a < length target_lens \<and> j < length_used 1 (target_lens ! a)
             then (output a j f - target a j f) ^ 2 else 0)
        = (\<Sum>j<S. if a < length target_lens \<and> j = 0 \<and> 1 \<le> target_lens ! a
                  then (\<Sum>f<F. (output a j f - target a j f) ^ 2) else 0)"
      by (rule sum.cong [OF refl]) (auto simp: length_used_1)
    also have "\<dots> = (if a < length target_lens \<and> 1 \<le> target_lens ! a
         then (\<Sum>f<F. (output a 0 f - target a 0 f) ^ 2) else 0)"
      using S by (rule sum_position_0)
    finally show ?thesis .
  qed
  have den: "(\<Sum>j<S. \<Sum>f<F.
             if a < length target_lens \<and> j < length_used 1 (target_lens ! a) then 1 else 0)
      = (if a < length target_lens \<and> 1 \<le> target_lens ! a then F else (0::nat))" for a
  proof -
    have "(\<Sum>j<S. \<Sum>f<F.
             if a < length target_lens \<and> j < length_used 1 (target_lens ! a) then 1 else 0)
        = (\<Sum>j<S. if a < length target_lens \<and> j = 0 \<and> 1 \<le> target_lens ! a
                  then (\<Sum>f<F. 1) else (0::nat))"
      by (rule sum.cong [OF refl]) (auto simp: length_used_1)
    also have "\<dots> = (if a < length target_lens \<and> 1 \<le> target_lens ! a
         then (\<Sum>f<F. 1) else (0::nat))"
      using S by (rule sum_position_0)
    finally show ?thesis by simp
  qed
  show ?thesis
    unfolding forward_general [OF len] num den ..
qed

lemma forward_cap_1:
  assumes len: "length target_lens = B" and valid: "\<forall>n \<in> set target_lens. 1 \<le> n"
    and S: "1 \<le> S"
  shows "MaskedMSELoss_forward 1 (B, S, F) output target target_lens
     = Inr (true_divide (\<Sum>a<B. \<Sum>f<F. (output a 0 f - target a 0 f) ^ 2) (B * F))"
proof -
  have all: "a < length target_lens \<and> 1 \<le> target_lens ! a" if "a < B" for a
    using that len valid by auto
  have "(\<Sum>a<B. if a < length target_lens \<and> 1 \<le> target_lens ! a
                 then (\<Sum>f<F. (output a 0 f - target a 0 f) ^ 2) else 0)
      = (\<Sum>a<B. \<Sum>f<F. (output a 0 f - target a 0 f) ^ 2)"
    using all by (intro sum.cong refl) simp
  moreover have "(\<Sum>a<B. if a < length target_lens \<and> 1 \<le> target_lens ! a then F else 0)
      = B * F"
  proof -
    have "(\<Sum>a<B. if a < length target_lens \<and> 1 \<le> target_lens ! a then F else 0)
        = (\<Sum>a<B. F)"
      using all by (intro sum.cong refl) simp
    then show ?thesis by simp
  qed
  ultimately show ?thesis
    unfolding forward_cap_1_general [OF eq_refl [OF len] S] by simp
qed

lemma forward_cap_1_cong:
  assumes "\<forall>a<B. \<forall>f<F. output' a 0 f = output a 0 f \<and> target' a 0 f = target a 0 f"
  shows "MaskedMSELoss_forward 1 (B, S, F) output' target' target_lens
       = MaskedMSELoss_forward 1 (B, S, F) output target target_lens"
proof (cases "length target_lens \<le> B")
  case False
  then show ?thesis
    by (simp add: MaskedMSELoss_forward_def mask_loop_error)
next
  case len: True
  show ?thesis
  proof (cases "1 \<le> S")
    case True
    have "(\<Sum>a<B. if a < length target_lens \<and> 1 \<le> target_lens ! a
                 then (\<Sum>f<F. (output' a 0 f - target' a 0 f) ^ 2) else 0)
        = (\<Sum>a<B. if a < length target_lens \<and> 1 \<le> target_lens ! a
                 then (\<Sum>f<F. (output a 0 f - target a 0 f) ^ 2) else 0)"
      using assms by (intro sum.cong refl if_cong) simp_all
    then show ?thesis
      unfolding forward_cap_1_general [OF len True] by simp
  next
    case False
    then have "S = 0" by simp
    then show ?thesis
      unfolding forward_general [OF len] by simp
  qed
qed

lemma count_below:
  "(\<Sum>j<S. if j < k then n else 0) = min k S * (n::nat)"
proof (induction S)
  case 0
  show ?case by simp
next
  case (Suc S)
  show ?case
  proof (cases "S < k")
    case True
    then have "min k (Suc S) = Suc (min k S)" by simp
    with Suc True show ?thesis by simp
  next
    case False
    then have "min k (Suc S) = min k S" by simp
    with Suc False show ?thesis by simp
  qed
qed

text \<open>
  C4. With \<open>max_look_forward = 1\<close> and every valid length at least 1, the loss is the sum
  of the squared differences at horizon position 0 divided by \<open>batch_size * features\<close>;
  it is the same for any other pair of tensors that agrees with \<open>output\<close> and \<open>target\<close>
  at position 0. For any \<open>max_look_forward\<close> the denominator is the number of unmasked
  entries, \<open>min(length_used, S) * features\<close> summed over the batch.
\<close>

theorem masked_loss_first_position:
  assumes len: "length target_lens = B" and valid: "\<forall>n \<in> set target_lens. 1 \<le> n"
    and S: "1 \<le> S"
  shows "MaskedMSELoss_forward 1 (B, S, F) output target target_lens
           = Inr (true_divide (\<Sum>a<B. \<Sum>f<F. (output a 0 f - target a 0 f) ^ 2) (B * F))
       \<and> ((\<forall>a<B. \<forall>f<F. output' a 0 f = output a 0 f \<and> target' a 0 f = target a 0 f) \<longrightarrow>
            MaskedMSELoss_forward 1 (B, S, F) output' target' target_lens
              = MaskedMSELoss_forward 1 (B, S, F) output target target_lens)
       \<and> MaskedMSELoss_forward cap (B, S, F) output target target_lens
           = Inr (true_divide
               (\<Sum>a<B. \<Sum>j<S. \<Sum>f<F.
                   if j < length_used cap (target_lens ! a)
                   then (output a j f - target a j f) ^ 2 else 0)
               (\<Sum>a<B. min (length_used cap (target_lens ! a)) S * F))"
proof (intro conjI impI)
  show "MaskedMSELoss_forward 1 (B, S, F) output target target_lens
           = Inr (true_divide (\<Sum>a<B. \<Sum>f<F. (output a 0 f - target a 0 f) ^ 2) (B * F))"
    using len valid S by (rule forward_cap_1)
next
  assume "\<forall>a<B. \<forall>f<F. output' a 0 f = output a 0 f \<and> target' a 0 f = target a 0 f"
  then show "MaskedMSELoss_forward 1 (B, S, F) output' target' target_lens
              = MaskedMSELoss_forward 1 (B, S, F) output target target_lens"
    by (rule forward_cap_1_cong)
next
  have num: "(\<Sum>a<B. \<Sum>j<S. \<Sum>f<F.
             if a < length target_lens \<and> j < length_used cap (target_lens ! a)
             then (output a j f - target a j f) ^ 2 else 0)
      = (\<Sum>a<B. \<Sum>j<S. \<Sum>f<F.
                   if j < length_used cap (target_lens ! a)
                   then (output a j f - target a j f) ^ 2 else 0)"
    using len by (intro sum.cong refl) simp
  have den: "(\<Sum>a<B. \<Sum>j<S. \<Sum>f<F.
             if a < length target_lens \<and> j < length_used cap (target_lens ! a) then 1 else 0)
      = (\<Sum>a<B. min (length_used cap (target_lens ! a)) S * F)"
  proof (rule sum.cong [OF refl])
    fix a assume "a \<in> {..<B}"
    then have "(\<Sum>j<S. \<Sum>f<F.
             if a < length target_lens \<and> j < length_used cap (target_lens ! a) then 1 else 0)
        = (\<Sum>j<S. if j < length_used cap (target_lens ! a) then F else 0)"
      using len by (intro sum.cong refl) simp
    then show "(\<Sum>j<S. \<Sum>f<F.
             if a < length target_lens \<and> j < length_used cap (target_lens ! a) then 1 else 0)
        = min (length_used cap (target_lens ! a)) S * F"
      by (simp add: count_below)
  qed
  show "MaskedMSELoss_forward cap (B, S, F) output target target_lens
           = Inr (true_divide
               (\<Sum>a<B. \<Sum>j<S. \<Sum>f<F.
                   if j < length_used cap (target_lens ! a)
                   then (output a j f - target a j f) ^ 2 else 0)
               (\<Sum>a<B. min (length_used cap (target_lens ! a)) S * F))"
    unfolding forward_general [OF eq_refl [OF len]] num den ..
qed

theorem masked_loss_first_position_witness:
  "MaskedMSELoss_forward 1 (2, 2, 1) (\<lambda>a j f. 1) (\<lambda>a j f. if j = 0 then 3 else 100) [2, 1]
     = Inr (Some 4)
   \<and> MaskedMSELoss_forward 1 (2, 2, 1) (\<lambda>a j f. if j = 0 then 1 else 7)
        (\<lambda>a j f. if j = 0 then 3 else 0) [2, 1]
     = MaskedMSELoss_forward 1 (2, 2, 1) (\<lambda>a j f. 1) (\<lambda>a j f. if j = 0 then 3 else 100) [2, 1]
   \<and> MaskedMSELoss_forward 2 (2, 2, 1) (\<lambda>a j f. 1) (\<lambda>a j f. if j = 0 then 3 else 100) [2, 1]
     = Inr (Some (9809 / 3))"
proof -
  have h: "length [2, 1::nat] = 2" "\<forall>n \<in> set [2, 1::nat]. 1 \<le> n" "(1::nat) \<le> 2"
    by simp_all
  have two: "{..<2::nat} = {0, 1}" by auto
  from masked_loss_first_position [OF h, of 1 "\<lambda>a j f. 1" "\<lambda>a j f. if j = 0 then 3 else 100"
      "\<lambda>a j f. if j = 0 then 1 else 7" "\<lambda>a j f. if j = 0 then 3 else 0" 2]
  show ?thesis
    by (simp add: true_divide_def length_used_def two)
qed






lemma broadcast_dim_left: "broadcast_dim m n = Some r \<Longrightarrow> m \<noteq> 1 \<Longrightarrow> r = m"
  by (auto simp: broadcast_dim_def split: if_splits)



lemma expand_index_bound_left:
  assumes "broadcast_dim m n = Some r" "i < r"
  shows "expand_index m i < m"
proof (cases "m = 1")
  case True
  then show ?thesis by (simp add: expand_index_def)
next
  case False
  with assms show ?thesis
    by (auto simp: expand_index_def dest: broadcast_dim_left)
qed



lemma training_loss_unfold:
  "training_loss (DLKoopmanRegressor_init look_forward input_size lbfgs enc dec prop)
       ((B, Fx), x, (By, Sy, Fy), y, ys)
     = (if ys = [] then Inl RuntimeError
        else if Fx \<noteq> input_size then Inl RuntimeError
        else if fold max ys 0 = 0 then Inl RuntimeError
        else if fold max ys 0 > look_forward then Inl IndexError
        else
          (case MaskedMSELoss_forward_shapes 1 (B, look_forward, input_size)
                  (\<lambda>a i. if i < fold max ys 0
                          then dec (propagate_encoded_n_steps prop (enc (x a)) i) else (\<lambda>f. 0))
                  (By, Sy, Fy) y ys of
             Inl e \<Rightarrow> Inl e
           | Inr rnn_loss \<Rightarrow>
               if Sy = 0 then Inl IndexError
               else if Fy \<noteq> input_size then Inl RuntimeError
               else if By \<noteq> B \<and> By \<noteq> 1 then Inl RuntimeError
               else if fold max ys 0 > Sy then Inl IndexError
               else
                 (case MaskedMSELoss_forward_shapes 1 (B, look_forward, input_size)
                         (\<lambda>a i. if i < fold max ys 0
                                 then dec (enc (y (expand_index By a) i)) else (\<lambda>f. 0))
                         (By, Sy, Fy) y ys of
                    Inl e \<Rightarrow> Inl e
                  | Inr rec_loss_y \<Rightarrow>
                      Inr (float_add rnn_loss
                             (float_add (mse_loss (B, input_size) (\<lambda>a. dec (enc (x a))) x)
                                rec_loss_y),
                           float_add (mse_loss (B, input_size) (\<lambda>a. dec (enc (x a))) x)
                             rec_loss_y,
                           rnn_loss))))"
  by (simp add: training_loss_def DLKoopmanRegressor_init_def Let_def
      cong: if_cong sum.case_cong)



text \<open>
  A \<open>y\<close> shorter than \<open>look_forward\<close> (and longer than one position) does not broadcast
  against the forecast tensor: for \<open>look_forward = 5\<close>, \<open>x = [[1]]\<close>, \<open>y = [[[3], [100]]]\<close>
  and \<open>ys = [2]\<close> the step raises \<open>RuntimeError\<close> at \<open>output - target\<close>.
\<close>

lemma training_step_shapes_do_not_broadcast:
  "training_step (DLKoopmanRegressor_init 5 1 False (\<lambda>v. v) (\<lambda>v. v) (\<lambda>v f. 2 * v f))
       ((1, 1), (\<lambda>a f. 1), (1, 2, 1), (\<lambda>a j f. if j = 0 then 3 else 100), [2])
     = Inl RuntimeError"
proof -
  have m: "mask_loop 1 1 0 [2] (\<lambda>a j f. False)
         = Inr (\<lambda>a j f. if a = 0 \<and> j < 1 then True else False)"
    by (simp add: length_used_def)
  show ?thesis
    by (simp add: training_step_def training_loss_unfold MaskedMSELoss_forward_shapes_def m
        broadcast_shapes_def broadcast_dim_def length_used_def)
qed




section \<open>Normalization round trip\<close>

lemma np_std_nonneg: "0 \<le> np_std col"
proof -
  have "0 \<le> sum_list (map (\<lambda>v. \<bar>v - np_mean col\<bar> ^ 2) col)"
    by (rule sum_list_nonneg) auto
  then have "0 \<le> np_mean (map (\<lambda>v. \<bar>v - np_mean col\<bar> ^ 2) col)"
    unfolding np_mean_def by (rule divide_nonneg_nonneg) simp
  then show ?thesis by (simp add: np_std_def)
qed

lemma divide_by_zero_guard_pos:
  assumes "\<forall>s \<in> set std. 0 \<le> s"
  shows "\<forall>s \<in> set (divide_by_zero_guard std). 0 < s"
proof
  fix s assume "s \<in> set (divide_by_zero_guard std)"
  then obtain t where t: "t \<in> set std" and s: "s = (if t < 1 / 1000000 then t + 1 / 1000 else t)"
    by (auto simp: divide_by_zero_guard_def)
  from t assms have "0 \<le> t" by blast
  with s show "0 < s" by (cases "t < 1 / 1000000") simp_all
qed

lemma length_divide_by_zero_guard: "length (divide_by_zero_guard std) = length std"
  by (simp add: divide_by_zero_guard_def)

lemma prepare_data_stats_scale:
  assumes stats: "prepare_data_stats normalize_mode normalize_std_factor data_list
                    = Inr (Some (mean, std))"
    and factor: "0 \<le> normalize_std_factor"
  shows "(\<forall>s \<in> set std. 0 < s) \<and> (\<forall>m \<in> set mean. m = 0) \<and> length mean = length std"
proof -
  from stats obtain stacked where stacked: "np_vstack data_list = Inr stacked" "stacked \<noteq> []"
    by (auto simp: prepare_data_stats_def split: sum.splits if_splits)
  let ?d = "length (hd stacked)"
  let ?std = "map (\<lambda>s. s * normalize_std_factor) (map (\<lambda>k. np_std (column stacked k)) [0..<?d])"
  let ?mean = "map (\<lambda>m. m * 0) (map (\<lambda>k. np_mean (column stacked k)) [0..<?d])"
  have nonneg: "\<forall>s \<in> set ?std. 0 \<le> s"
    using factor np_std_nonneg by (auto intro: mult_nonneg_nonneg)
  have mean: "mean = ?mean"
    using stats stacked by (auto simp: prepare_data_stats_def Let_def split: if_splits)
  show ?thesis
  proof (cases "normalize_mode = ''max''")
    case True
    with stats stacked have ne: "?std \<noteq> []"
      and std: "std = divide_by_zero_guard (map (\<lambda>s. 1 * Max (set ?std)) ?std)"
      by (auto simp: prepare_data_stats_def Let_def split: if_splits)
    have "Max (set ?std) \<in> set ?std"
      using ne by (intro Max_in) auto
    with nonneg have "0 \<le> Max (set ?std)" by blast
    then have "\<forall>s \<in> set (map (\<lambda>s. 1 * Max (set ?std)) ?std). 0 \<le> s" by simp
    then have "\<forall>s \<in> set std. 0 < s"
      unfolding std by (rule divide_by_zero_guard_pos)
    moreover have "length mean = length std"
      unfolding std mean by (simp add: length_divide_by_zero_guard)
    ultimately show ?thesis unfolding mean by simp
  next
    case False
    with stats stacked have std: "std = divide_by_zero_guard ?std"
      by (auto simp: prepare_data_stats_def Let_def split: if_splits)
    have "\<forall>s \<in> set std. 0 < s"
      unfolding std using nonneg by (rule divide_by_zero_guard_pos)
    moreover have "length mean = length std"
      unfolding std mean by (simp add: length_divide_by_zero_guard)
    ultimately show ?thesis unfolding mean by simp
  qed
qed

lemma round_trip_identity:
  assumes len: "length x = length std" "length mean = length std"
    and nz: "\<forall>s \<in> set std. s \<noteq> 0"
  shows "round_trip mean std (map Some x) = Inr (map Some x)"
proof -
  have norm: "TensorNormalize_forward mean std (map Some x)
      = Inr (map (\<lambda>i. Some ((x ! i - mean ! i) / std ! i)) [0..<length x])"
    using len nz
    by (auto simp: TensorNormalize_forward_def broadcast_op_def float_divide_def
        intro!: nth_equalityI)
  have inv: "InverseTensorNormalize_forward mean std
        (map (\<lambda>i. Some ((x ! i - mean ! i) / std ! i)) [0..<length x])
      = Inr (map Some x)"
    using len nz
    by (auto simp: InverseTensorNormalize_forward_def broadcast_op_def intro!: nth_equalityI)
  show ?thesis
    by (simp add: round_trip_def norm inv)
qed


lemma collect_map_Inr:
  assumes "\<forall>v \<in> set vs. f v = Inr (g v)"
  shows "collect (map f vs) = Inr (map g vs)"
  using assms by (induction vs) simp_all

lemma normalize_then_inverse:
  assumes len: "length x = length std" "length mean = length std"
    and nz: "\<forall>s \<in> set std. s \<noteq> 0"
  shows "\<exists>z. TensorNormalize_forward mean std (map Some x) = Inr z
             \<and> InverseTensorNormalize_forward mean std z = Inr (map Some x)"
  using round_trip_identity [OF assms]
  by (auto simp: round_trip_def split: sum.splits)

lemma round_trip_rows_identity:
  assumes rows: "\<forall>x \<in> set xs. length x = length std" and len: "length mean = length std"
    and nz: "\<forall>s \<in> set std. s \<noteq> 0"
  shows "round_trip_rows mean std (map (map Some) xs) = Inr (map (map Some) xs)"
proof -
  define norm where "norm x = projr (TensorNormalize_forward mean std (map Some x))" for x
  have each: "TensorNormalize_forward mean std (map Some x) = Inr (norm x)
      \<and> InverseTensorNormalize_forward mean std (norm x) = Inr (map Some x)"
    if "x \<in> set xs" for x
    using normalize_then_inverse [OF _ len nz, of x] rows that
    by (auto simp: norm_def)
  have "collect (map (TensorNormalize_forward mean std) (map (map Some) xs))
      = Inr (map norm xs)"
    unfolding map_map using each by (intro collect_map_Inr) simp
  moreover have "collect (map (InverseTensorNormalize_forward mean std) (map norm xs))
      = Inr (map (map Some) xs)"
    unfolding map_map using each by (intro collect_map_Inr) simp
  ultimately show ?thesis by (simp add: round_trip_rows_def)
qed

text \<open>
  C5, as the code has it. For the statistics \<open>prepare_data\<close> computes (either mode)
  with a non-negative \<open>normalize_std_factor\<close>, every entry of the scale is strictly
  positive after the guard, and normalizing and then inverting a row, or a 2-D tensor,
  with as many features as the scale gives it back exactly.
\<close>

theorem normalization_round_trip:
  assumes stats: "prepare_data_stats normalize_mode normalize_std_factor data_list
                    = Inr (Some (mean, std))"
    and factor: "0 \<le> normalize_std_factor"
    and x: "length x = length std"
    and xs: "\<forall>row \<in> set xs. length row = length std"
  shows "(\<forall>s \<in> set std. 0 < s)
       \<and> round_trip mean std (map Some x) = Inr (map Some x)
       \<and> round_trip_rows mean std (map (map Some) xs) = Inr (map (map Some) xs)"
proof -
  from prepare_data_stats_scale [OF stats factor]
  have pos: "\<forall>s \<in> set std. 0 < s" and len: "length mean = length std" by simp_all
  from pos have nz: "\<forall>s \<in> set std. s \<noteq> 0" by auto
  show ?thesis
    using pos round_trip_identity [OF x len nz] round_trip_rows_identity [OF xs len nz]
    by simp
qed

lemma stats_max_example:
  "prepare_data_stats ''max'' 2 [[[0, 0], [2, 4]]] = Inr (Some ([0, 0], [4, 4]))"
  by (simp add: prepare_data_stats_def np_vstack_def column_def np_mean_def np_std_def
      divide_by_zero_guard_def Let_def upt_conv_Cons)

lemma stats_equal_example:
  "prepare_data_stats ''equal'' 2 [[[0, 0], [2, 4]]] = Inr (Some ([0, 0], [2, 4]))"
  by (simp add: prepare_data_stats_def np_vstack_def column_def np_mean_def np_std_def
      divide_by_zero_guard_def Let_def upt_conv_Cons)

theorem normalization_round_trip_witness:
  "round_trip [0, 0] [4, 4] [Some 3, Some 7] = Inr [Some 3, Some 7]
   \<and> round_trip_rows [0, 0] [4, 4] [[Some 1, Some 2], [Some 5, Some 6]]
       = Inr [[Some 1, Some 2], [Some 5, Some 6]]
   \<and> round_trip [0, 0] [2, 4] [Some 3, Some 7] = Inr [Some 3, Some 7]"
proof -
  have f: "(0::real) \<le> 2" by simp
  have x: "length [3, 7::real] = length [4, 4::real]"
    and xs: "\<forall>row \<in> set [[1, 2], [5, 6::real]]. length row = length [4, 4::real]"
    and x': "length [3, 7::real] = length [2, 4::real]"
    and xs': "\<forall>row \<in> set ([]::real list list). length row = length [2, 4::real]"
    by simp_all
  from normalization_round_trip [OF stats_max_example f x xs]
       normalization_round_trip [OF stats_equal_example f x' xs']
  show ?thesis by simp
qed

text \<open>
  C5, as stated, fails for a negative \<open>normalize_std_factor\<close>, which nothing in the code
  excludes: for the data \<open>[[0], [2]]\<close> (standard deviation 1) and the factor \<open>-0.001\<close> the
  scale is \<open>-0.001\<close> before the guard and exactly 0 after it, and normalizing divides by
  zero, so that the round trip does not give the input back.
\<close>

theorem normalization_negative_factor_zero_scale:
  "prepare_data_stats ''equal'' (- 1 / 1000) [[[0], [2]]] = Inr (Some ([0], [0]))
   \<and> round_trip [0] [0] [Some 1] = Inr [None]"
  by (simp add: prepare_data_stats_def np_vstack_def column_def np_mean_def np_std_def
      divide_by_zero_guard_def Let_def upt_conv_Cons round_trip_def
      TensorNormalize_forward_def InverseTensorNormalize_forward_def broadcast_op_def
      float_divide_def)


section \<open>Estimator facade and ingestion\<close>

lemma fit_paired_builds_one_less:
  assumes "length x = length y" and "\<forall>i < length x. length (x ! i) = length (y ! i)"
  shows "fit_data_module (Ndarray2 x) (Ndarray2 y)
           = Inr (map (\<lambda>i. [x ! i, y ! i]) [0..<length x - 1], None, length x - 1)"
proof -
  have "\<forall>i \<in> set (range_len_minus_1 x). stack_pair x y i = Inr [x ! i, y ! i]"
    using assms by (auto simp: range_len_minus_1_def stack_pair_def np_stack2_def)
  then have "collect (map (stack_pair x y) (range_len_minus_1 x))
      = Inr (map (\<lambda>i. [x ! i, y ! i]) (range_len_minus_1 x))"
    by (rule collect_map_Inr)
  moreover have "range_len_minus_1 x = [0..<length x - 1]"
    by (simp add: range_len_minus_1_def nat_diff_distrib')
  ultimately show ?thesis by simp
qed

text \<open>
  C7. Paired arrays \<open>x\<close>, \<open>y\<close> of \<open>N\<close> rows should give \<open>N\<close> two-state trajectories. The
  code iterates over \<open>range(len(x) - 1)\<close> in the paired case too: for two arrays of two
  rows each it builds one trajectory, and the pair \<open>(x[1], y[1])\<close> is dropped.
\<close>

theorem fit_paired_drops_last_pair:
  "fit_data_module (Ndarray2 [[0], [1]]) (Ndarray2 [[10], [11]])
     = Inr ([[[0], [10]]], None, 1)"
  by (simp add: range_len_minus_1_def stack_pair_def np_stack2_def)

text \<open>
  C8. Before \<open>fit\<close>, five of the six properties raise the not-fitted error, but
  \<open>state_matrix_\<close> reads the missing attribute directly and raises \<open>AttributeError\<close>.
\<close>

theorem state_matrix_unfitted_not_NotFittedError:
  "state_matrix_prop (NNDMD_init args) = Inl AttributeError
   \<and> state_matrix_prop (NNDMD_init args) \<noteq> Inl NotFittedError
   \<and> coef_prop (NNDMD_init args) = Inl NotFittedError
   \<and> eigenvalues_prop (NNDMD_init args) = Inl NotFittedError
   \<and> eigenvectors_prop (NNDMD_init args) = Inl NotFittedError
   \<and> ur (NNDMD_init args) = Inl NotFittedError
   \<and> unnormalized_modes (NNDMD_init args) = Inl NotFittedError"
  by (simp add: state_matrix_prop_def coef_prop_def eigenvalues_prop_def eigenvectors_prop_def
      ur_def unnormalized_modes_def checked_attr_def check_is_fitted_def getattr_def
      NNDMD_init_def NNDMD_init_attrs_def)

text \<open>
  C9. A list holding one \<open>float64\<close> array is converted to \<open>float32\<close>, but no warning is
  issued: the test \<open>x.dtype is np.float64\<close> compares a dtype instance with the scalar
  class and is never true.
\<close>

theorem check_list_float64_no_warning:
  "check_list_of_nparray cast32 [\<lparr>arr_dtype = Float64, arr_rows = [[1]]\<rparr>]
     = Inr ([], [\<lparr>arr_dtype = Float32, arr_rows = [[cast32 1]]\<rparr>])"
  by (simp add: check_list_of_nparray_def py_is_def py_in_def astype_float32_def)

section \<open>The propagator families\<close>

lemma transpose_add: "transpose_mat (A + B) = transpose_mat A + transpose_mat B"
  by transfer simp

lemma transpose_diff: "transpose_mat (A - B) = transpose_mat A - transpose_mat B"
  by transfer simp

lemma transpose_scaleR: "transpose_mat (r *\<^sub>R A) = r *\<^sub>R transpose_mat A"
  by transfer simp

lemma transpose_transpose: "transpose_mat (transpose_mat A) = A"
  by transfer simp

lemma transpose_one: "transpose_mat 1 = 1"
  by transfer (auto simp: fun_eq_iff)

lemma transpose_mult: "transpose_mat (A * B) = transpose_mat B * transpose_mat A"
  by transfer (simp add: mult.commute)

lemma transpose_power: "transpose_mat (A ^ n) = transpose_mat A ^ n"
  by (induction n) (simp_all add: transpose_one transpose_mult power_commutes)

lemma norm_transpose_le: "norm (transpose_mat A) \<le> norm A * real CARD('n)"
  for A :: "'n::finite mat"
proof -
  have "norm (transpose_mat A) \<le> (\<Sum>i\<in>UNIV. \<Sum>j\<in>UNIV. \<bar>entry (transpose_mat A) i j\<bar>)"
    by (rule norm_le_sum_entries)
  also have "\<dots> = (\<Sum>j\<in>UNIV. row_sum A j)"
    unfolding transpose_mat.rep_eq row_sum_def by (rule sum.swap)
  also have "\<dots> \<le> (\<Sum>j\<in>(UNIV::'n set). norm A)"
    by (intro sum_mono row_sum_le_norm)
  also have "\<dots> = norm A * real CARD('n)" by simp
  finally show ?thesis .
qed

lemma bounded_linear_transpose: "bounded_linear (transpose_mat :: 'n::finite mat \<Rightarrow> 'n mat)"
  by (rule bounded_linear_intro [where K = "real CARD('n)"])
    (simp_all add: transpose_add transpose_scaleR norm_transpose_le)

lemma transpose_exp: "transpose_mat (exp A) = exp (transpose_mat A)"
proof -
  have "transpose_mat (exp A) = (\<Sum>n. transpose_mat (A ^ n /\<^sub>R fact n))"
    unfolding exp_def
    by (rule bounded_linear.suminf [OF bounded_linear_transpose summable_exp_generic])
  also have "\<dots> = exp (transpose_mat A)"
    by (simp add: exp_def transpose_scaleR transpose_power)
  finally show ?thesis .
qed

lemma exp_skew_orthogonal:
  assumes "transpose_mat K = - K"
  shows "transpose_mat (exp K) * exp K = 1"
proof -
  have "transpose_mat (exp K) * exp K = exp (- K) * exp K"
    by (simp add: transpose_exp assms)
  also have "\<dots> = 1"
    by (metis exp_minus_inverse minus_minus)
  finally show ?thesis .
qed

lemma quadratic_form_Re:
  assumes "mat_vec A v = (\<lambda>i. l * v i)"
  shows "Re l * (\<Sum>i\<in>UNIV. (cmod (v i))\<^sup>2)
       = (\<Sum>i\<in>UNIV. \<Sum>j\<in>UNIV. entry A i j * Re (cnj (v i) * v j))"
proof -
  have "cnj (v i) * (l * v i) = l * of_real ((cmod (v i))\<^sup>2)" for i
  proof -
    have "cnj (v i) * (l * v i) = l * (v i * cnj (v i))"
      by (simp add: mult_ac)
    then show ?thesis
      by (simp only: complex_norm_square)
  qed
  note step = this
  have "(\<Sum>i\<in>UNIV. cnj (v i) * mat_vec A v i) = (\<Sum>i\<in>UNIV. cnj (v i) * (l * v i))"
    by (simp only: assms)
  also have "\<dots> = (\<Sum>i\<in>UNIV. l * of_real ((cmod (v i))\<^sup>2))"
    by (simp only: step)
  also have "\<dots> = l * of_real (\<Sum>i\<in>UNIV. (cmod (v i))\<^sup>2)"
    by (simp only: sum_distrib_left of_real_sum)
  finally have "Re (\<Sum>i\<in>UNIV. cnj (v i) * mat_vec A v i)
      = Re l * (\<Sum>i\<in>UNIV. (cmod (v i))\<^sup>2)"
    by simp
  moreover have "Re (\<Sum>i\<in>UNIV. cnj (v i) * mat_vec A v i)
      = (\<Sum>i\<in>UNIV. \<Sum>j\<in>UNIV. entry A i j * Re (cnj (v i) * v j))"
    unfolding mat_vec_def sum_distrib_left Re_sum
    by (intro sum.cong refl) (simp add: algebra_simps)
  ultimately show ?thesis by simp
qed

lemma skew_part_vanishes:
  fixes r :: "'n::finite \<Rightarrow> 'n \<Rightarrow> real"
  assumes sym: "\<And>i j. r i j = r j i"
  shows "(\<Sum>i\<in>UNIV. \<Sum>j\<in>UNIV. (entry S i j - entry S j i) * r i j) = 0"
proof -
  have "(\<Sum>i\<in>UNIV. \<Sum>j\<in>UNIV. entry S j i * r i j) = (\<Sum>j\<in>UNIV. \<Sum>i\<in>UNIV. entry S j i * r j i)"
    using sym by (subst sum.swap) simp
  then show ?thesis
    by (simp add: left_diff_distrib sum_subtractf)
qed

lemma dissipative_eigenvalue_Re:
  assumes "mat_vec (diag d + S - transpose_mat S) v = (\<lambda>i. l * v i)"
  shows "Re l * (\<Sum>i\<in>UNIV. (cmod (v i))\<^sup>2) = (\<Sum>i\<in>UNIV. d i * (cmod (v i))\<^sup>2)"
proof -
  define r where "r i j = Re (cnj (v i) * v j)" for i j
  have sym: "r i j = r j i" for i j
    by (simp add: r_def mult.commute)
  have rii: "r i i = (cmod (v i))\<^sup>2" for i
  proof -
    have "r i i = (Re (v i))\<^sup>2 + (Im (v i))\<^sup>2"
      by (simp add: r_def power2_eq_square)
    then show ?thesis by (simp add: cmod_power2)
  qed
  have diag: "(\<Sum>j\<in>UNIV. (if i = j then d i else 0) * r i j) = d i * (cmod (v i))\<^sup>2" for i
  proof -
    have "(\<Sum>j\<in>UNIV. (if i = j then d i else 0) * r i j)
        = (\<Sum>j\<in>UNIV. if i = j then d i * r i i else 0)"
      by (intro sum.cong) auto
    also have "\<dots> = d i * r i i" by (simp add: sum.delta)
    finally show ?thesis by (simp add: rii)
  qed
  have split: "entry (diag d + S - transpose_mat S) i j * r i j
      = (if i = j then d i else 0) * r i j + (entry S i j - entry S j i) * r i j" for i j
    by (simp add: minus_mat.rep_eq plus_mat.rep_eq diag.rep_eq transpose_mat.rep_eq
        algebra_simps)
  have "(\<Sum>i\<in>UNIV. \<Sum>j\<in>UNIV. entry (diag d + S - transpose_mat S) i j * r i j)
      = (\<Sum>i\<in>UNIV. \<Sum>j\<in>UNIV. (if i = j then d i else 0) * r i j)
        + (\<Sum>i\<in>UNIV. \<Sum>j\<in>UNIV. (entry S i j - entry S j i) * r i j)"
    unfolding split sum.distrib ..
  also have "\<dots> = (\<Sum>i\<in>UNIV. d i * (cmod (v i))\<^sup>2)"
    unfolding skew_part_vanishes [of r S, OF sym] diag by simp
  finally show ?thesis
    using quadratic_form_Re [OF assms] by (simp add: r_def)
qed

lemma sum_norm_pos:
  fixes v :: "'n::finite \<Rightarrow> complex"
  assumes "v \<noteq> (\<lambda>i. 0)"
  shows "0 < (\<Sum>i\<in>UNIV. (cmod (v i))\<^sup>2)"
proof -
  from assms obtain k where "v k \<noteq> 0" by (auto simp: fun_eq_iff)
  then have "0 < (cmod (v k))\<^sup>2" by simp
  also have "\<dots> \<le> (\<Sum>i\<in>UNIV. (cmod (v i))\<^sup>2)"
    by (rule member_le_sum) simp_all
  finally show ?thesis .
qed

lemma diag_zero: "diag (\<lambda>i. 0) = 0"
  by transfer simp

lemma hamiltonian_eigenvalue_Re:
  assumes "eigenvalue (S - transpose_mat S) l"
  shows "Re l = 0"
proof -
  from assms obtain v where v: "v \<noteq> (\<lambda>i. 0)"
    and eig: "mat_vec (S - transpose_mat S) v = (\<lambda>i. l * v i)"
    by (auto simp: eigenvalue_def)
  from eig have "mat_vec (diag (\<lambda>i. 0) + S - transpose_mat S) v = (\<lambda>i. l * v i)"
    by (simp add: diag_zero)
  from dissipative_eigenvalue_Re [OF this]
  have "Re l * (\<Sum>i\<in>UNIV. (cmod (v i))\<^sup>2) = 0" by simp
  with sum_norm_pos [OF v] show ?thesis by simp
qed

lemma dissipative_eigenvalue_nonpos:
  assumes "eigenvalue (diag d + S - transpose_mat S) l" and "\<And>i. d i \<le> 0"
  shows "Re l \<le> 0"
proof -
  from assms obtain v where v: "v \<noteq> (\<lambda>i. 0)"
    and eig: "mat_vec (diag d + S - transpose_mat S) v = (\<lambda>i. l * v i)"
    by (auto simp: eigenvalue_def)
  have "(\<Sum>i\<in>UNIV. d i * (cmod (v i))\<^sup>2) \<le> 0"
    by (intro sum_nonpos mult_nonpos_nonneg assms(2)) simp
  with dissipative_eigenvalue_Re [OF eig]
  have "Re l * (\<Sum>i\<in>UNIV. (cmod (v i))\<^sup>2) \<le> 0" by simp
  with sum_norm_pos [OF v] show ?thesis
    by (simp add: mult_le_0_iff)
qed


lemma diag_one: "diag (\<lambda>i. 1) = 1"
  by transfer simp

lemma transpose_zero: "transpose_mat 0 = 0"
  by transfer simp

lemma eigenvalue_scalar: "eigenvalue (c *\<^sub>R (1::'n::finite mat)) (of_real c)"
proof -
  have "mat_vec (c *\<^sub>R (1::'n mat)) (\<lambda>i. 1) i = of_real c * 1" for i
  proof -
    have "mat_vec (c *\<^sub>R (1::'n mat)) (\<lambda>i. 1) i = (\<Sum>j\<in>UNIV. if i = j then of_real c else 0)"
      unfolding mat_vec_def scaleR_mat.rep_eq one_mat.rep_eq
      by (intro sum.cong) auto
    then show ?thesis by (simp add: sum.delta)
  qed
  then have "mat_vec (c *\<^sub>R (1::'n mat)) (\<lambda>i. 1) = (\<lambda>i. of_real c * 1)"
    by (intro ext)
  moreover have "(\<lambda>i::'n. 1::complex) \<noteq> (\<lambda>i. 0)"
    by (simp add: fun_eq_iff)
  ultimately show ?thesis
    unfolding eigenvalue_def by blast
qed

lemma exp_scalar_mat: "exp (c *\<^sub>R (1::'n::finite mat)) = exp c *\<^sub>R 1"
proof -
  have "exp (of_real c :: 'n mat) = of_real (exp c)" by (rule exp_of_real)
  then show ?thesis by (simp add: of_real_def)
qed

text \<open>
  C3. For every value of the parameter \<open>S\<close> of the Hamiltonian propagator the generator
  is \<open>S - S\<^sup>T\<close>; it is skew-symmetric; each of its complex eigenvalues has real part 0;
  and the discrete operator \<open>A = exp (dt K)\<close> satisfies \<open>A\<^sup>T A = I\<close>.
\<close>

theorem hamiltonian_skew_orthogonal:
  "get_K (HamiltonianKoopmanOperator S) = S - transpose_mat S
   \<and> get_K (HamiltonianKoopmanOperator S) = - transpose_mat (get_K (HamiltonianKoopmanOperator S))
   \<and> (\<forall>l. eigenvalue (get_K (HamiltonianKoopmanOperator S)) l \<longrightarrow> Re l = 0)
   \<and> transpose_mat (get_discrete_time_Koopman_Operator dt (HamiltonianKoopmanOperator S))
       * get_discrete_time_Koopman_Operator dt (HamiltonianKoopmanOperator S) = 1"
proof (intro conjI allI impI)
  show "get_K (HamiltonianKoopmanOperator S) = S - transpose_mat S" by simp
next
  show "get_K (HamiltonianKoopmanOperator S)
      = - transpose_mat (get_K (HamiltonianKoopmanOperator S))"
    by (simp add: transpose_diff transpose_transpose)
next
  fix l assume "eigenvalue (get_K (HamiltonianKoopmanOperator S)) l"
  then show "Re l = 0" by (simp add: hamiltonian_eigenvalue_Re)
next
  have "transpose_mat (dt *\<^sub>R (S - transpose_mat S)) = - (dt *\<^sub>R (S - transpose_mat S))"
    by (simp add: transpose_scaleR transpose_diff transpose_transpose scaleR_diff_right)
  then show "transpose_mat (get_discrete_time_Koopman_Operator dt (HamiltonianKoopmanOperator S))
       * get_discrete_time_Koopman_Operator dt (HamiltonianKoopmanOperator S) = 1"
    unfolding get_discrete_time_Koopman_Operator_def get_K.simps
    by (rule exp_skew_orthogonal)
qed

lemma index_2_cases: "x = 0 \<or> x = 1" for x :: 2
proof (induct x)
  case (of_int z)
  then have "z = 0 \<or> z = 1" by auto
  then show ?case by auto
qed

lemma UNIV_2: "(UNIV :: 2 set) = {0, 1}"
  using index_2_cases by auto

lemma rotation_eigenvalue:
  "eigenvalue (get_K (HamiltonianKoopmanOperator rotation_generator)) \<i>"
proof -
  let ?v = "\<lambda>i::2. if i = 0 then 1 else \<i>"
  have "mat_vec (rotation_generator - transpose_mat rotation_generator) ?v i = \<i> * ?v i" for i
    using index_2_cases [of i]
    by (auto simp: mat_vec_def UNIV_2 minus_mat.rep_eq transpose_mat.rep_eq
        rotation_generator_def)
  then have "mat_vec (rotation_generator - transpose_mat rotation_generator) ?v
      = (\<lambda>i. \<i> * ?v i)"
    by (intro ext)
  moreover have "?v \<noteq> (\<lambda>i. 0)"
    by (auto simp: fun_eq_iff)
  ultimately show ?thesis
    unfolding eigenvalue_def get_K.simps by blast
qed

theorem hamiltonian_skew_orthogonal_witness:
  "eigenvalue (get_K (HamiltonianKoopmanOperator rotation_generator)) \<i>
   \<and> Re \<i> = 0
   \<and> transpose_mat (get_discrete_time_Koopman_Operator 1
         (HamiltonianKoopmanOperator rotation_generator))
       * get_discrete_time_Koopman_Operator 1 (HamiltonianKoopmanOperator rotation_generator) = 1"
  using hamiltonian_skew_orthogonal [of rotation_generator 1] rotation_eigenvalue
  by blast

text \<open>
  C2. The generator of the Dissipative propagator is built from the parameter
  \<open>diagonal\<close> itself, not from minus a square. For dimension 1 with \<open>diagonal = [1]\<close>
  and \<open>off_diagonal = [[0]]\<close> the generator is \<open>[[1]]\<close>, with the eigenvalue 1 of
  positive real part, and for \<open>dt = 1\<close> the discrete operator has the eigenvalue
  \<open>exp 1 > 1\<close>.
\<close>

theorem dissipative_positive_diagonal:
  "get_K (DissipativeKoopmanOperator (0::1 mat) (\<lambda>i. 1)) = 1
   \<and> eigenvalue (get_K (DissipativeKoopmanOperator (0::1 mat) (\<lambda>i. 1))) 1
   \<and> 0 < Re (1::complex)
   \<and> eigenvalue (get_discrete_time_Koopman_Operator 1
         (DissipativeKoopmanOperator (0::1 mat) (\<lambda>i. 1))) (of_real (exp 1))
   \<and> 1 < cmod (of_real (exp 1))"
proof -
  have K: "get_K (DissipativeKoopmanOperator (0::1 mat) (\<lambda>i. 1)) = 1"
    by (simp add: diag_one transpose_zero)
  have "eigenvalue (1 *\<^sub>R (1::1 mat)) (of_real 1)" by (rule eigenvalue_scalar)
  then have e1: "eigenvalue (1::1 mat) 1" by simp
  have "eigenvalue (exp 1 *\<^sub>R (1::1 mat)) (of_real (exp 1))" by (rule eigenvalue_scalar)
  then have e2: "eigenvalue (exp (1 *\<^sub>R (1::1 mat))) (of_real (exp 1))"
    by (simp only: exp_scalar_mat)
  have "1 < exp (1::real)" by simp
  then have "1 < cmod (of_real (exp 1))" by simp
  with K e1 e2 show ?thesis
    by (simp add: get_discrete_time_Koopman_Operator_def)
qed

text \<open>
  What does hold for the Dissipative propagator: when no entry of \<open>diagonal\<close> is
  positive (as at initialisation), every eigenvalue of the generator has non-positive
  real part.
\<close>

theorem dissipative_nonpositive_diagonal:
  assumes "\<forall>i. diagonal i \<le> 0"
    and "eigenvalue (get_K (DissipativeKoopmanOperator off_diagonal diagonal)) l"
  shows "Re l \<le> 0"
  using assms by (auto intro: dissipative_eigenvalue_nonpos)

theorem dissipative_nonpositive_diagonal_witness:
  "eigenvalue (get_K (DissipativeKoopmanOperator (0::1 mat) (\<lambda>i. - 1))) (- 1)
   \<and> Re (- 1) \<le> 0"
proof -
  have "diag (\<lambda>i. - 1) = (- 1) *\<^sub>R (1::1 mat)"
    by transfer (auto simp: fun_eq_iff)
  then have K: "get_K (DissipativeKoopmanOperator (0::1 mat) (\<lambda>i. - 1)) = (- 1) *\<^sub>R 1"
    by (simp add: transpose_zero)
  have "eigenvalue ((- 1) *\<^sub>R (1::1 mat)) (of_real (- 1))" by (rule eigenvalue_scalar)
  then have e: "eigenvalue (get_K (DissipativeKoopmanOperator (0::1 mat) (\<lambda>i. - 1))) (- 1)"
    by (simp only: K) simp
  have d: "\<forall>i::1. (\<lambda>i. - 1::real) i \<le> 0" by simp
  from dissipative_nonpositive_diagonal [OF d e] e show ?thesis by simp
qed

end
